theory Spec2Isabelle
  imports Main "HOL-Library.Word" "HOL-Library.Sublist"
begin

unbundle bit_operations_syntax

section \<open>Header sanitation (filterMalformedHeaders)\<close>

text \<open>
  Go strings and byte slices are sequences of bytes; they are modelled as \<^typ>\<open>string\<close>,
  whose characters are 8-bit. The conversions \<open>string(body)\<close> and \<open>[]byte(newBody)\<close>
  are therefore the identity.
\<close>

type_synonym bytes = string

definition LF :: char where
  "LF = CHR 0x0A"

definition CR :: char where
  "CR = CHR 0x0D"

text \<open>
  \<open>strings.Split(s, sep)\<close> for a one-byte separator: the substrings between the
  occurrences of \<open>sep\<close>; a string with n separators gives n + 1 substrings, and the
  empty string gives one empty substring.
\<close>

fun Split :: "string \<Rightarrow> char \<Rightarrow> string list" where
  "Split [] sep = [[]]"
| "Split (c # cs) sep =
     (if c = sep then [] # Split cs sep
      else (case Split cs sep of
              [] \<Rightarrow> [[c]]
            | l # ls \<Rightarrow> (c # l) # ls))"

text \<open>\<open>strings.Join(elems, sep)\<close>: no element gives the empty string.\<close>

fun Join :: "string list \<Rightarrow> string \<Rightarrow> string" where
  "Join [] sep = []"
| "Join [a] sep = a"
| "Join (a # b # rest) sep = a @ sep @ Join (b # rest) sep"

text \<open>\<open>strings.HasPrefix(s, prefix)\<close>: \<open>len(s) >= len(prefix) && s[:len(prefix)] == prefix\<close>.\<close>

definition HasPrefix :: "string \<Rightarrow> string \<Rightarrow> bool" where
  "HasPrefix s pre = (length pre \<le> length s \<and> take (length pre) s = pre)"

text \<open>
  The loop of \<open>filterMalformedHeaders\<close> over the lines, with its two variables
  \<open>headers\<close> and \<open>newLines\<close>. The first \<open>if\<close> clears \<open>headers\<close>; the second one
  is the \<open>continue\<close>; otherwise the line is appended.
\<close>

fun filterLoop :: "bool \<Rightarrow> string list \<Rightarrow> string list \<Rightarrow> string list" where
  "filterLoop headers newLines [] = newLines"
| "filterLoop headers newLines (line # lines) =
     (let headers' = (if headers \<and> (line = [] \<or> line = [CR]) then False else headers)
      in if headers' \<and>
            (HasPrefix line ''>From'' \<or> HasPrefix line ''From'' \<and> \<not> HasPrefix line ''From:'')
         then filterLoop headers' newLines lines
         else filterLoop headers' (newLines @ [line]) lines)"

definition filterMalformedHeaders :: "bytes \<Rightarrow> bytes" where
  "filterMalformedHeaders body =
     (let bodyStr = body;
          lines = Split bodyStr LF;
          newLines = filterLoop True [] lines;
          newBody = Join newLines [LF]
      in newBody)"

text \<open>
  The vocabulary of the specification of the filter: a line is blank when it is empty or
  a lone carriage return; a header line is dropped when it begins with \<open>>From\<close>, or
  begins with \<open>From\<close> and the next byte is not a colon. \<open>sanitize\<close> is the filter on
  lines as the specification words it: the lines before the first blank line without the
  dropped ones, followed by every line from the first blank line on.
\<close>

definition blank_line :: "string \<Rightarrow> bool" where
  "blank_line l = (l = [] \<or> l = [CR])"

definition dropped_line :: "string \<Rightarrow> bool" where
  "dropped_line l = (prefix ''>From'' l \<or> prefix ''From'' l \<and> \<not> prefix ''From:'' l)"

definition sanitize :: "string list \<Rightarrow> string list" where
  "sanitize ls =
     filter (\<lambda>l. \<not> dropped_line l) (takeWhile (\<lambda>l. \<not> blank_line l) ls) @
     dropWhile (\<lambda>l. \<not> blank_line l) ls"

section \<open>The article number of a subject (strconv.ParseInt)\<close>

text \<open>
  The program reads the subject with \<open>strconv.ParseInt(subj, 10, 32)\<close> of the Go standard
  library and discards the error. The library function is modelled as it is written, for
  these two arguments, \<open>base = 10\<close> and \<open>bitSize = 32\<close>; its branches for base 0 (prefixes
  and underscores) and for an invalid base or bit size cannot be reached from this call and
  are left out. As the library documents, a syntax error comes with the value 0, and a
  range error with the integer of greatest magnitude for the bit size and the sign.
  \<open>uint64\<close> and \<open>int64\<close> are 64-bit words, the latter read by \<^const>\<open>sint\<close>; bytes are
  8-bit words.
\<close>

type_synonym uint64 = "64 word"
type_synonym int64 = "64 word"
type_synonym byte = "8 word"

datatype NumError = ErrSyntax | ErrRange

definition base :: byte where
  "base = 10"

definition bitSize :: nat where
  "bitSize = 32"

definition maxUint64 :: uint64 where
  "maxUint64 = - 1"

text \<open>\<open>lower(c)\<close> is \<open>c | ('x' - 'X')\<close>.\<close>

definition lower :: "byte \<Rightarrow> byte" where
  "lower c = c OR 0x20"

text \<open>
  The loop of \<open>ParseUint\<close> over the bytes of the string, with the accumulator \<open>n\<close>.
  A byte that is no digit or letter, or a digit not below the base, is a syntax error with
  value 0; an accumulator that passes \<open>maxVal\<close> is a range error with value \<open>maxVal\<close>,
  returned at once, before the remaining bytes are looked at.
\<close>

fun ParseUint_loop :: "uint64 \<Rightarrow> uint64 \<Rightarrow> uint64 \<Rightarrow> byte list \<Rightarrow> uint64 \<times> NumError option" where
  "ParseUint_loop cutoff maxVal n [] = (n, None)"
| "ParseUint_loop cutoff maxVal n (c # cs) =
     (if 0x30 \<le> c \<and> c \<le> 0x39 \<or> 0x61 \<le> lower c \<and> lower c \<le> 0x7A then
        (let d = (if 0x30 \<le> c \<and> c \<le> 0x39 then c - 0x30 else lower c - 0x61 + 10) in
         if d \<ge> base then (0, Some ErrSyntax)
         else if n \<ge> cutoff then (maxVal, Some ErrRange)
         else
           (let n' = n * ucast base;
                n1 = n' + ucast d
            in if n1 < n' \<or> n1 > maxVal then (maxVal, Some ErrRange)
               else ParseUint_loop cutoff maxVal n1 cs))
      else (0, Some ErrSyntax))"

definition ParseUint :: "string \<Rightarrow> uint64 \<times> NumError option" where
  "ParseUint s =
     (if s = [] then (0, Some ErrSyntax)
      else
        (let cutoff = maxUint64 div 10 + 1;
             maxVal = push_bit bitSize 1 - 1
         in ParseUint_loop cutoff maxVal 0 (map of_char s)))"

definition ParseInt :: "string \<Rightarrow> int64 \<times> NumError option" where
  "ParseInt s =
     (if s = [] then (0, Some ErrSyntax)
      else
        (let neg = (hd s = CHR ''-'');
             s' = (if hd s = CHR ''+'' \<or> hd s = CHR ''-'' then tl s else s);
             (un, err) = ParseUint s'
         in if err \<noteq> None \<and> err \<noteq> Some ErrRange then (0, err)
            else
              (let cutoff = push_bit (bitSize - 1) 1
               in if \<not> neg \<and> un \<ge> cutoff then (cutoff - 1, Some ErrRange)
                  else if neg \<and> un > cutoff then (- cutoff, Some ErrRange)
                  else (if neg then - un else un, None))))"

text \<open>
  Lines 229 to 232 of \<open>main\<close>: \<open>articleId\<close> starts at 0 and is assigned the value returned
  by \<open>ParseInt\<close> when the subject is not empty; the error is discarded.
\<close>

definition articleId_of :: "string \<Rightarrow> int64" where
  "articleId_of subj = (if subj \<noteq> [] then fst (ParseInt subj) else 0)"

text \<open>
  The intent of the specification, a derived value: the branch taken at line 235
  (\<open>articleId != 0\<close>), with the number handed to the cache, \<open>int(articleId)\<close>.
\<close>

datatype Intent = Digest | ArticleRequest int

definition derive_intent :: "string \<Rightarrow> Intent" where
  "derive_intent subj =
     (if articleId_of subj \<noteq> 0 then ArticleRequest (sint (articleId_of subj)) else Digest)"

text \<open>
  The vocabulary of the specification: a subject parses in full as a base-10 integer when
  it is a non-empty run of decimal digits after at most one sign; \<open>parse_decimal\<close> gives
  that integer, without any bound.
\<close>

definition is_digit :: "char \<Rightarrow> bool" where
  "is_digit c = (48 \<le> (of_char c :: nat) \<and> (of_char c :: nat) \<le> 57)"

definition digits_from :: "nat \<Rightarrow> string \<Rightarrow> nat" where
  "digits_from n ds = foldl (\<lambda>n c. 10 * n + (of_char c - 48)) n ds"

definition digits_value :: "string \<Rightarrow> nat" where
  "digits_value ds = digits_from 0 ds"

definition unsigned_part :: "string \<Rightarrow> string" where
  "unsigned_part s =
     (case s of [] \<Rightarrow> [] | c # cs \<Rightarrow> if c = CHR ''+'' \<or> c = CHR ''-'' then cs else s)"

definition is_negative :: "string \<Rightarrow> bool" where
  "is_negative s = (case s of [] \<Rightarrow> False | c # cs \<Rightarrow> c = CHR ''-'')"

definition parse_decimal :: "string \<Rightarrow> int option" where
  "parse_decimal s =
     (if unsigned_part s \<noteq> [] \<and> list_all is_digit (unsigned_part s)
      then Some (if is_negative s then - int (digits_value (unsigned_part s))
                 else int (digits_value (unsigned_part s)))
      else None)"

text \<open>
  A subject stays within range when \<open>ParseInt\<close> has no range error to report: a subject
  that parses in full gives a signed 32-bit integer, and in any other subject the digits
  read before the first other byte stay below \<open>2 ^ 32\<close>, the bound of \<open>ParseUint\<close>.
\<close>

definition leading_value :: "string \<Rightarrow> nat" where
  "leading_value s = digits_value (takeWhile is_digit (unsigned_part s))"

definition no_overflow :: "string \<Rightarrow> bool" where
  "no_overflow s =
     (case parse_decimal s of
        Some n \<Rightarrow> - 2147483648 \<le> n \<and> n \<le> 2147483647
      | None \<Rightarrow> leading_value s \<le> 4294967295)"

section \<open>The poll loop of main\<close>

subsection \<open>Constants\<close>

text \<open>
  The three string constants of lines 37 to 48, as their UTF-8 bytes: the subject of a digest
  reply, the block before the headlines (nine source lines of Russian text, ending in an
  empty line) and the block after them (a single line feed).
\<close>

definition headlinesSubject :: string where
  "headlinesSubject =
       [CHR 0xD0, CHR 0x9F, CHR 0xD0, CHR 0xBE, CHR 0xD1, CHR 0x81, CHR 0xD0, CHR 0xBB,
        CHR 0xD0, CHR 0xB5, CHR 0xD0, CHR 0xB4, CHR 0xD0, CHR 0xBD, CHR 0xD0, CHR 0xB8,
        CHR 0xD0, CHR 0xB5]
     @ '' ''
     @ [CHR 0xD0, CHR 0xBD, CHR 0xD0, CHR 0xBE, CHR 0xD0, CHR 0xB2, CHR 0xD0, CHR 0xBE,
        CHR 0xD1, CHR 0x81, CHR 0xD1, CHR 0x82, CHR 0xD0, CHR 0xB8]
     @ '' ''
     @ [CHR 0xD0, CHR 0xBE]
     @ '' ''
     @ [CHR 0xD0, CHR 0xB2, CHR 0xD0, CHR 0xBE, CHR 0xD0, CHR 0xB9, CHR 0xD0, CHR 0xBD,
        CHR 0xD0, CHR 0xB5]"

definition header :: string where
  "header =
       [CHR 0xD0, CHR 0x9D, CHR 0xD0, CHR 0xBE, CHR 0xD0, CHR 0xB2, CHR 0xD0, CHR 0xBE,
        CHR 0xD1, CHR 0x81, CHR 0xD1, CHR 0x82, CHR 0xD0, CHR 0xB8]
     @ '' ''
     @ [CHR 0xD0, CHR 0xA1, CHR 0xD0, CHR 0xB8]
     @ ''-''
     @ [CHR 0xD0, CHR 0xAD, CHR 0xD0, CHR 0xBD]
     @ ''-''
     @ [CHR 0xD0, CHR 0xAD, CHR 0xD0, CHR 0xBD, CHR 0x0A, CHR 0x0A, CHR 0xD0, CHR 0x9A,
        CHR 0xD0, CHR 0xB0, CHR 0xD0, CHR 0xB6, CHR 0xD0, CHR 0xB4, CHR 0xD0, CHR 0xB0,
        CHR 0xD1, CHR 0x8F]
     @ '' ''
     @ [CHR 0xD1, CHR 0x81, CHR 0xD1, CHR 0x82, CHR 0xD0, CHR 0xB0, CHR 0xD1, CHR 0x82,
        CHR 0xD1, CHR 0x8C, CHR 0xD1, CHR 0x8F]
     @ '' ''
     @ [CHR 0xD0, CHR 0xB8, CHR 0xD0, CHR 0xBC, CHR 0xD0, CHR 0xB5, CHR 0xD0, CHR 0xB5,
        CHR 0xD1, CHR 0x82]
     @ '' ''
     @ [CHR 0xD0, CHR 0xBD, CHR 0xD0, CHR 0xBE, CHR 0xD0, CHR 0xBC, CHR 0xD0, CHR 0xB5,
        CHR 0xD1, CHR 0x80]
     @ ''. ''
     @ [CHR 0xD0, CHR 0x9F, CHR 0xD0, CHR 0xBE, CHR 0xD1, CHR 0x88, CHR 0xD0, CHR 0xBB,
        CHR 0xD0, CHR 0xB8, CHR 0xD1, CHR 0x82, CHR 0xD0, CHR 0xB5]
     @ '' ''
     @ [CHR 0xD1, CHR 0x81, CHR 0xD0, CHR 0xBE, CHR 0xD0, CHR 0xBE, CHR 0xD0, CHR 0xB1,
        CHR 0xD1, CHR 0x89, CHR 0xD0, CHR 0xB5, CHR 0xD0, CHR 0xBD, CHR 0xD0, CHR 0xB8,
        CHR 0xD0, CHR 0xB5]
     @ '' ''
     @ [CHR 0xD1, CHR 0x81]
     @ '' ''
     @ [CHR 0xD1, CHR 0x8D, CHR 0xD1, CHR 0x82, CHR 0xD0, CHR 0xB8, CHR 0xD0, CHR 0xBC]
     @ '' ''
     @ [CHR 0xD0, CHR 0xBD, CHR 0xD0, CHR 0xBE, CHR 0xD0, CHR 0xBC, CHR 0xD0, CHR 0xB5,
        CHR 0xD1, CHR 0x80, CHR 0xD0, CHR 0xBE, CHR 0xD0, CHR 0xBC]
     @ '' ''
     @ [CHR 0xD0, CHR 0xB2]
     @ '' ''
     @ [CHR 0xD1, CHR 0x82, CHR 0xD0, CHR 0xB5, CHR 0xD0, CHR 0xBC, CHR 0xD0, CHR 0xB5]
     @ '' ''
     @ [CHR 0xD1, CHR 0x87, CHR 0xD1, CHR 0x82, CHR 0xD0, CHR 0xBE, CHR 0xD0, CHR 0xB1,
        CHR 0xD1, CHR 0x8B]
     @ '' ''
     @ [CHR 0xD0, CHR 0xBF, CHR 0xD0, CHR 0xBE, CHR 0xD0, CHR 0xBB, CHR 0xD1, CHR 0x83,
        CHR 0xD1, CHR 0x87, CHR 0xD0, CHR 0xB8, CHR 0xD1, CHR 0x82, CHR 0xD1, CHR 0x8C]
     @ '' ''
     @ [CHR 0xD1, CHR 0x81, CHR 0xD1, CHR 0x82, CHR 0xD0, CHR 0xB0, CHR 0xD1, CHR 0x82,
        CHR 0xD1, CHR 0x8C, CHR 0xD1, CHR 0x8E]
     @ '' ''
     @ [CHR 0xD0, CHR 0xBF, CHR 0xD0, CHR 0xBE, CHR 0xD0, CHR 0xBB, CHR 0xD0, CHR 0xBD,
        CHR 0xD0, CHR 0xBE, CHR 0xD1, CHR 0x81, CHR 0xD1, CHR 0x82, CHR 0xD1, CHR 0x8C,
        CHR 0xD1, CHR 0x8E]
     @ ''. ''
     @ [CHR 0x0A, CHR 0x0A, CHR 0xD0, CHR 0x95, CHR 0xD1, CHR 0x81, CHR 0xD0, CHR 0xBB,
        CHR 0xD0, CHR 0xB8]
     @ '' ''
     @ [CHR 0xD0, CHR 0xB2, CHR 0xD1, CHR 0x8B]
     @ '' ''
     @ [CHR 0xD0, CHR 0xBF, CHR 0xD0, CHR 0xBE, CHR 0xD0, CHR 0xBB, CHR 0xD1, CHR 0x8C,
        CHR 0xD0, CHR 0xB7, CHR 0xD1, CHR 0x83, CHR 0xD0, CHR 0xB5, CHR 0xD1, CHR 0x82,
        CHR 0xD0, CHR 0xB5, CHR 0xD1, CHR 0x81, CHR 0xD1, CHR 0x8C]
     @ '' ''
     @ [CHR 0xD0, CHR 0xB7, CHR 0xD0, CHR 0xB0, CHR 0xD1, CHR 0x88, CHR 0xD0, CHR 0xB8,
        CHR 0xD1, CHR 0x84, CHR 0xD1, CHR 0x80, CHR 0xD0, CHR 0xBE, CHR 0xD0, CHR 0xB2,
        CHR 0xD0, CHR 0xB0, CHR 0xD0, CHR 0xBD, CHR 0xD0, CHR 0xBD, CHR 0xD0, CHR 0xBE,
        CHR 0xD0, CHR 0xB9]
     @ '' ''
     @ [CHR 0xD0, CHR 0xBF, CHR 0xD0, CHR 0xBE, CHR 0xD1, CHR 0x87, CHR 0xD1, CHR 0x82,
        CHR 0xD0, CHR 0xBE, CHR 0xD0, CHR 0xB9]
     @ '' Ubikom, ''
     @ [CHR 0xD1, CHR 0x82, CHR 0xD0, CHR 0xBE]
     @ '' ''
     @ [CHR 0xD0, CHR 0xB2, CHR 0xD0, CHR 0xB0, CHR 0xD1, CHR 0x88, CHR 0xD0, CHR 0xB5]
     @ '' ''
     @ [CHR 0xD0, CHR 0xB2, CHR 0xD0, CHR 0xB7, CHR 0xD0, CHR 0xB0, CHR 0xD0, CHR 0xB8,
        CHR 0xD0, CHR 0xBC, CHR 0xD0, CHR 0xBE, CHR 0xD0, CHR 0xB4, CHR 0xD0, CHR 0xB5,
        CHR 0xD0, CHR 0xB9, CHR 0xD1, CHR 0x81, CHR 0xD1, CHR 0x82, CHR 0xD0, CHR 0xB2,
        CHR 0xD0, CHR 0xB8, CHR 0xD0, CHR 0xB5]
     @ '' ''
     @ [CHR 0xD1, CHR 0x81]
     @ '' war-info@ubikom.cc ''
     @ [CHR 0xD0, CHR 0xBD, CHR 0xD0, CHR 0xB5]
     @ '' ''
     @ [CHR 0xD1, CHR 0x80, CHR 0xD0, CHR 0xB5, CHR 0xD0, CHR 0xB3, CHR 0xD0, CHR 0xB8,
        CHR 0xD1, CHR 0x81, CHR 0xD1, CHR 0x82, CHR 0xD1, CHR 0x80, CHR 0xD0, CHR 0xB8,
        CHR 0xD1, CHR 0x80, CHR 0xD1, CHR 0x83, CHR 0xD0, CHR 0xB5, CHR 0xD1, CHR 0x82,
        CHR 0xD1, CHR 0x81, CHR 0xD1, CHR 0x8F]
     @ '' ''
     @ [CHR 0xD0, CHR 0xB8, CHR 0x0A, CHR 0xD0, CHR 0xBD, CHR 0xD0, CHR 0xB5]
     @ '' ''
     @ [CHR 0xD0, CHR 0xBE, CHR 0xD1, CHR 0x82, CHR 0xD1, CHR 0x81, CHR 0xD0, CHR 0xBB,
        CHR 0xD0, CHR 0xB5, CHR 0xD0, CHR 0xB6, CHR 0xD0, CHR 0xB8, CHR 0xD0, CHR 0xB2,
        CHR 0xD0, CHR 0xB0, CHR 0xD0, CHR 0xB5, CHR 0xD1, CHR 0x82, CHR 0xD1, CHR 0x81,
        CHR 0xD1, CHR 0x8F]
     @ ''. ''
     @ [CHR 0xD0, CHR 0x9C, CHR 0xD0, CHR 0xB5, CHR 0xD1, CHR 0x82, CHR 0xD0, CHR 0xB0,
        CHR 0xD0, CHR 0xB8, CHR 0xD0, CHR 0xBD, CHR 0xD1, CHR 0x84, CHR 0xD0, CHR 0xBE,
        CHR 0xD1, CHR 0x80, CHR 0xD0, CHR 0xBC, CHR 0xD0, CHR 0xB0, CHR 0xD1, CHR 0x86,
        CHR 0xD0, CHR 0xB8, CHR 0xD1, CHR 0x8F]
     @ '' ''
     @ [CHR 0xD0, CHR 0xBE]
     @ '' ''
     @ [CHR 0xD0, CHR 0xB2, CHR 0xD0, CHR 0xB0, CHR 0xD1, CHR 0x88, CHR 0xD0, CHR 0xB8,
        CHR 0xD1, CHR 0x85]
     @ '' ''
     @ [CHR 0xD1, CHR 0x81, CHR 0xD0, CHR 0xBE, CHR 0xD0, CHR 0xBE, CHR 0xD0, CHR 0xB1,
        CHR 0xD1, CHR 0x89, CHR 0xD0, CHR 0xB5, CHR 0xD0, CHR 0xBD, CHR 0xD0, CHR 0xB8,
        CHR 0xD1, CHR 0x8F, CHR 0xD1, CHR 0x85]
     @ '' ''
     @ [CHR 0xD0, CHR 0xB2, CHR 0xD1, CHR 0x81, CHR 0xD0, CHR 0xB5, CHR 0xD0, CHR 0xB3,
        CHR 0xD0, CHR 0xB4, CHR 0xD0, CHR 0xB0]
     @ '' ''
     @ [CHR 0xD0, CHR 0xB7, CHR 0xD0, CHR 0xB0, CHR 0xD1, CHR 0x88, CHR 0xD0, CHR 0xB8,
        CHR 0xD1, CHR 0x84, CHR 0xD1, CHR 0x80, CHR 0xD0, CHR 0xBE, CHR 0xD0, CHR 0xB2,
        CHR 0xD0, CHR 0xB0, CHR 0xD0, CHR 0xBD, CHR 0xD0, CHR 0xB0]
     @ ''. ''
     @ [CHR 0xD0, CHR 0x9E, CHR 0xD0, CHR 0xB1, CHR 0xD1, CHR 0x81, CHR 0xD0, CHR 0xBB,
        CHR 0xD1, CHR 0x83, CHR 0xD0, CHR 0xB6, CHR 0xD0, CHR 0xB8, CHR 0xD0, CHR 0xB2,
        CHR 0xD0, CHR 0xB0, CHR 0xD1, CHR 0x8E, CHR 0xD1, CHR 0x89, CHR 0xD0, CHR 0xB8,
        CHR 0xD0, CHR 0xB5]
     @ '' ''
     @ [CHR 0xD1, CHR 0x81, CHR 0xD0, CHR 0xB5, CHR 0xD1, CHR 0x80, CHR 0xD0, CHR 0xB2,
        CHR 0xD0, CHR 0xB5, CHR 0xD1, CHR 0x80, CHR 0xD1, CHR 0x8B]
     @ '' ''
     @ [CHR 0xD0, CHR 0xBD, CHR 0xD0, CHR 0xB0, CHR 0xD1, CHR 0x85, CHR 0xD0, CHR 0xBE,
        CHR 0xD0, CHR 0xB4, CHR 0xD1, CHR 0x8F, CHR 0xD1, CHR 0x82, CHR 0xD1, CHR 0x81,
        CHR 0xD1, CHR 0x8F, CHR 0x0A, CHR 0xD0, CHR 0xB7, CHR 0xD0, CHR 0xB0]
     @ '' ''
     @ [CHR 0xD0, CHR 0xBF, CHR 0xD1, CHR 0x80, CHR 0xD0, CHR 0xB5, CHR 0xD0, CHR 0xB4,
        CHR 0xD0, CHR 0xB5, CHR 0xD0, CHR 0xBB, CHR 0xD0, CHR 0xB0, CHR 0xD0, CHR 0xBC,
        CHR 0xD0, CHR 0xB8]
     @ '' ''
     @ [CHR 0xD0, CHR 0xA0, CHR 0xD0, CHR 0xA4]
     @ ''. ''
     @ [CHR 0xD0, CHR 0xA0, CHR 0xD0, CHR 0xB5, CHR 0xD0, CHR 0xB3, CHR 0xD0, CHR 0xB5,
        CHR 0xD1, CHR 0x81, CHR 0xD1, CHR 0x82, CHR 0xD1, CHR 0x80, CHR 0xD0, CHR 0xB8,
        CHR 0xD1, CHR 0x80, CHR 0xD1, CHR 0x83, CHR 0xD0, CHR 0xB9, CHR 0xD1, CHR 0x82,
        CHR 0xD0, CHR 0xB5, CHR 0xD1, CHR 0x81, CHR 0xD1, CHR 0x8C]
     @ '' ''
     @ [CHR 0xD0, CHR 0xB7, CHR 0xD0, CHR 0xB4, CHR 0xD0, CHR 0xB5, CHR 0xD1, CHR 0x81,
        CHR 0xD1, CHR 0x8C]
     @ '': https://ubikom.cc/ru/index.html.''
     @ [CHR 0x0A, CHR 0x0A]"

definition footer :: string where
  "footer = [CHR 0x0A]"

subsection \<open>Data\<close>

text \<open>
  Keys, signatures and decrypted contents are byte strings; a time is a number. A Go
  \<open>error\<close> is either a gRPC status error, with its code (\<open>codes.Code\<close> is a \<open>uint32\<close>)
  and message, or any other error. \<open>status.FromError\<close> gives the status of the former
  with \<open>ok = true\<close>, and a status of code \<open>Unknown\<close> with \<open>ok = false\<close> for the latter.
\<close>

type_synonym PrivateKey = bytes
type_synonym PublicKey = bytes
type_synonym Signed = bytes
type_synonym Time = nat
type_synonym Code = "32 word"

datatype error = GRPCStatus Code string | PlainError string

type_synonym Status = "Code \<times> string"

definition Unknown :: Code where
  "Unknown = 2"

definition NotFound :: Code where
  "NotFound = 5"

definition FromError :: "error \<Rightarrow> Status \<times> bool" where
  "FromError err =
     (case err of
        GRPCStatus c m \<Rightarrow> ((c, m), True)
      | PlainError m \<Rightarrow> ((Unknown, m), False))"

definition Code :: "Status \<Rightarrow> Code" where
  "Code st = fst st"

record KeyEntry =
  PrivateKey :: PrivateKey
  UbikomName :: string
  IdentityProof :: Signed

text \<open>
  The message of package \<open>pb\<close> and the response of \<open>Receive\<close> that carries it. The
  message of a response is a pointer and may be nil; the getters \<open>GetSender\<close>,
  \<open>GetSignature\<close> and \<open>GetContent\<close> accept a nil message, a field access does not.
\<close>

record DMSMessage =
  Sender :: string
  Content :: bytes
  Signature :: "Signed option"

record ReceiveResponse =
  Message :: "DMSMessage option"

definition GetMessage :: "ReceiveResponse \<Rightarrow> DMSMessage option" where
  "GetMessage res = Message res"

definition GetSender :: "DMSMessage option \<Rightarrow> string" where
  "GetSender msg = (case msg of None \<Rightarrow> [] | Some m \<Rightarrow> Sender m)"

definition GetSignature :: "DMSMessage option \<Rightarrow> Signed option" where
  "GetSignature msg = (case msg of None \<Rightarrow> None | Some m \<Rightarrow> Signature m)"

definition GetContent :: "DMSMessage option \<Rightarrow> bytes" where
  "GetContent msg = (case msg of None \<Rightarrow> [] | Some m \<Rightarrow> Content m)"

record mail_Address =
  Name :: string
  Address :: string

text \<open>The struct \<open>Email\<close> of line 345; a nil slice \<open>Cc\<close> is \<open>None\<close>.\<close>

record Email =
  From :: mail_Address
  To :: "mail_Address list"
  Cc :: "mail_Address list option"
  Subject :: string
  Date :: Time
  Body :: string

text \<open>
  Modelled from the spec: the headline entry of package \<open>newscache\<close>, whose source is not
  among the files at hand. The specification gives it an id and a title; \<open>main\<close> formats
  the id with \<open>%d\<close> and the title with \<open>%s\<close>.
\<close>

record Headline =
  ID :: int
  Title :: string

text \<open>
  The parsed document: \<open>message.Read\<close> gives an entity, of which \<open>main\<close> uses the header
  only, as a map from a field name to its values.
\<close>

type_synonym HeaderMap = "(string \<times> string list) list"

record Entity =
  Header :: HeaderMap

text \<open>
  The fields that \<open>CreateTextEmail\<close> sets on the header of the outgoing document, in the
  order of the calls \<open>SetDate\<close>, \<open>Set\<close>, \<open>SetAddressList\<close> and \<open>SetSubject\<close>.
\<close>

datatype header_field =
  DateField Time
| TextField string string
| AddressListField string "mail_Address list"
| SubjectField string

text \<open>
  What the loop does to the outside is recorded as a list of events: the log records, with
  the level and the message of the call to \<open>log\<close>, and the calls of
  \<open>protoutil.SendEmail\<close>, with the private key, the body, the sender name and the
  receiver name.
\<close>

datatype level = DebugLevel | InfoLevel | ErrorLevel | FatalLevel

datatype event =
  Log level string
| SendEmail PrivateKey bytes string string

text \<open>
  How an iteration of the receive loop ends: \<open>continue\<close> (or the end of the body),
  \<open>break\<close>, the exit of the process by \<open>log.Fatal\<close>, or a run-time panic.
\<close>

datatype control = Continue | Break | Exit | Panic

subsection \<open>Collaborators\<close>

text \<open>
  The packages that \<open>main\<close> calls and that lie outside the repository, or outside the files
  at hand (the cache), are parameters of the model: the directory lookup, the key and
  envelope functions of \<open>easyecc\<close> and \<open>protoutil\<close>, the document parser and writer of
  \<open>go-message\<close>, the headline cache, and the clock. Each is a function of its arguments as
  they stand during one iteration of the loop; a Go result \<open>(value, err)\<close> is a sum with
  the error on the left.
\<close>

record env =
  LookupName :: "string \<Rightarrow> error + bytes"
  NewPublicFromSerializedCompressed :: "bytes \<Rightarrow> error + PublicKey"
  VerifySignature :: "Signed option \<Rightarrow> bytes \<Rightarrow> bytes \<Rightarrow> bool"
  Decrypt :: "PrivateKey \<Rightarrow> bytes \<Rightarrow> PublicKey \<Rightarrow> error + bytes"
  message_Read :: "bytes \<Rightarrow> error + Entity"
  AddressList :: "HeaderMap \<Rightarrow> string \<Rightarrow> error + mail_Address list"
  header_Subject :: "HeaderMap \<Rightarrow> error + string"
  cache_GetArticle :: "int \<Rightarrow> error + string \<times> string"
  cache_GetHeadlines :: "Headline list"
  time_Now :: Time
  CreateSingleInlineWriter :: "header_field list \<Rightarrow> error + bytes"
  writer_Write :: "bytes \<Rightarrow> bytes \<Rightarrow> error + bytes"
  writer_Close :: "bytes \<Rightarrow> bytes"
  protoutil_SendEmail :: "PrivateKey \<Rightarrow> bytes \<Rightarrow> string \<Rightarrow> string \<Rightarrow> error option"

subsection \<open>CreateTextEmail\<close>

text \<open>
  The header is filled field by field, \<open>Cc\<close> only when the slice is not nil. The writer of
  the mail package gets the header and returns the buffer with the header written, or an
  error; \<open>Write\<close> adds the body or fails; \<open>Close\<close> completes the buffer, whose bytes are
  the result.
\<close>

definition CreateTextEmail :: "env \<Rightarrow> Email \<Rightarrow> error + bytes" where
  "CreateTextEmail env email =
     (let h = [DateField (Date email),
               TextField ''Content-Language'' ''ru'',
               TextField ''Content-Type'' ''text/plain; charset=utf-8; format=flowed'',
               AddressListField ''From'' [From email],
               AddressListField ''To'' (To email)];
          h = (case Cc email of None \<Rightarrow> h | Some cc \<Rightarrow> h @ [AddressListField ''Cc'' cc]);
          h = h @ [SubjectField (Subject email)]
      in case CreateSingleInlineWriter env h of
           Inl err \<Rightarrow> Inl err
         | Inr b \<Rightarrow>
             (case writer_Write env b (Body email) of
                Inl err \<Rightarrow> Inl err
              | Inr b' \<Rightarrow> Inr (writer_Close env b')))"

subsection \<open>sendArticle\<close>

text \<open>
  The \<open>Email\<close> literal of lines 292 to 305: the fixed sender, one receiver address, the
  headline as the subject and the text as the body.
\<close>

definition articleEmail :: "env \<Rightarrow> string \<Rightarrow> string \<Rightarrow> string \<Rightarrow> Email" where
  "articleEmail env text headline to =
     \<lparr>From = \<lparr>Name = ''Ubikom War Info'', Address = ''war-info@ubikom.cc''\<rparr>,
      To = [\<lparr>Name = [], Address = to\<rparr>],
      Cc = None,
      Subject = headline,
      Date = time_Now env,
      Body = text\<rparr>"

text \<open>
  \<open>sendArticle\<close> returns the error of the composition; after that it chooses the receiver,
  sends, logs the outcome of the send, and returns nil. The context and the lookup service
  are part of the collaborator \<open>protoutil_SendEmail\<close>.
\<close>

definition sendArticle ::
  "env \<Rightarrow> string \<Rightarrow> string \<Rightarrow> string \<Rightarrow> string \<Rightarrow> string \<Rightarrow> PrivateKey \<Rightarrow> error option \<times> event list" where
  "sendArticle env text headline to ubikomName sender privateKey =
     (case CreateTextEmail env (articleEmail env text headline to) of
        Inl err \<Rightarrow> (Some err, [])
      | Inr respMsg \<Rightarrow>
          (let respReceiver = ''gateway'';
               respReceiver = (if sender \<noteq> ''gateway'' then sender else respReceiver)
           in case protoutil_SendEmail env privateKey respMsg ubikomName respReceiver of
                Some err \<Rightarrow>
                  (None, [SendEmail privateKey respMsg ubikomName respReceiver,
                          Log ErrorLevel ''failed to send response''])
              | None \<Rightarrow>
                  (None, [SendEmail privateKey respMsg ubikomName respReceiver,
                          Log InfoLevel ''message sent''])))"

subsection \<open>The digest reply\<close>

text \<open>
  \<open>%d\<close> of an integer: its decimal digits, after a minus sign when it is negative.
\<close>

fun nat_digits :: "nat \<Rightarrow> string" where
  "nat_digits n =
     (if n < 10 then [char_of (48 + n)]
      else nat_digits (n div 10) @ [char_of (48 + n mod 10)])"

declare nat_digits.simps [simp del]

definition FormatInt :: "int \<Rightarrow> string" where
  "FormatInt i = (if i < 0 then ''-'' @ nat_digits (nat (- i)) else nat_digits (nat i))"

text \<open>\<open>fmt.Sprintf("[%d] %s\n\n", h.ID, h.Title)\<close>.\<close>

definition headline_line :: "Headline \<Rightarrow> string" where
  "headline_line h = ''['' @ FormatInt (ID h) @ ''] '' @ Title h @ [LF, LF]"

text \<open>
  Lines 250 to 255: the buffer receives the header, one formatted line per headline in the
  order of the list, and the footer.
\<close>

definition digestBody :: "Headline list \<Rightarrow> string" where
  "digestBody headlines =
     (let buf = [];
          buf = buf @ header;
          buf = foldl (\<lambda>buf h. buf @ headline_line h) buf headlines;
          buf = buf @ footer
      in buf)"

text \<open>The \<open>Email\<close> literal of lines 257 to 269.\<close>

definition digestEmail :: "env \<Rightarrow> KeyEntry \<Rightarrow> string \<Rightarrow> Email" where
  "digestEmail env key to =
     \<lparr>From = \<lparr>Name = [], Address = UbikomName key @ ''@ubikom.cc''\<rparr>,
      To = [\<lparr>Name = [], Address = to\<rparr>],
      Cc = None,
      Subject = headlinesSubject,
      Date = time_Now env,
      Body = digestBody (cache_GetHeadlines env)\<rparr>"

text \<open>
  Lines 248 to 284. A failed composition is logged and leaves \<open>resp\<close> nil (no bytes); the
  send follows in either case.
\<close>

definition sendDigest :: "env \<Rightarrow> KeyEntry \<Rightarrow> DMSMessage \<Rightarrow> string \<Rightarrow> event list" where
  "sendDigest env key msg to =
     (let (resp, created) =
            (case CreateTextEmail env (digestEmail env key to) of
               Inl err \<Rightarrow> ([], [Log ErrorLevel ''failed to create email''])
             | Inr b \<Rightarrow> (b, []));
          respReceiver = ''gateway'';
          respReceiver = (if Sender msg \<noteq> ''gateway'' then Sender msg else respReceiver)
      in created @
         (case protoutil_SendEmail env (PrivateKey key) resp (UbikomName key) respReceiver of
            Some err \<Rightarrow>
              [SendEmail (PrivateKey key) resp (UbikomName key) respReceiver,
               Log ErrorLevel ''failed to send response'']
          | None \<Rightarrow>
              [SendEmail (PrivateKey key) resp (UbikomName key) respReceiver,
               Log InfoLevel ''message sent'']))"

subsection \<open>The body of the receive loop\<close>

text \<open>
  Lines 236 to 246, the branch \<open>articleId != 0\<close>: the article is looked up under
  \<open>int(articleId)\<close>; a failed lookup and a failed \<open>sendArticle\<close> are logged.
\<close>

definition requestArticle :: "env \<Rightarrow> KeyEntry \<Rightarrow> DMSMessage \<Rightarrow> string \<Rightarrow> int64 \<Rightarrow> event list" where
  "requestArticle env key msg to articleId =
     Log DebugLevel ''getting article'' #
     (case cache_GetArticle env (sint articleId) of
        Inl err \<Rightarrow> [Log ErrorLevel ''error retrieving article'']
      | Inr (headline, text) \<Rightarrow>
          (case sendArticle env text headline to (UbikomName key) (Sender msg) (PrivateKey key) of
             (Some err, evs) \<Rightarrow> evs @ [Log ErrorLevel ''error sending the article'']
           | (None, evs) \<Rightarrow> evs))"

text \<open>
  Lines 205 to 284: the decrypted content is filtered and parsed, the sender address and
  the subject are read, and the reply is chosen by the article number. Every path ends the
  iteration by \<open>continue\<close> or by reaching the end of the body.
\<close>

definition handleContent :: "env \<Rightarrow> KeyEntry \<Rightarrow> DMSMessage \<Rightarrow> bytes \<Rightarrow> control \<times> event list" where
  "handleContent env key msg content =
     (case message_Read env (filterMalformedHeaders content) of
        Inl err \<Rightarrow> (Continue, [Log ErrorLevel ''failed to read message''])
      | Inr e \<Rightarrow>
          (let h = Header e
           in case AddressList env h ''From'' of
                Inl err \<Rightarrow> (Continue, [Log ErrorLevel ''failed to get from address''])
              | Inr al \<Rightarrow>
                  if length al \<noteq> 1
                  then (Continue, [Log ErrorLevel ''more than one address in from address list''])
                  else
                    (let to = Address (al ! 0)
                     in case header_Subject env h of
                          Inl err \<Rightarrow> (Continue, [Log ErrorLevel ''failed to get subject''])
                        | Inr subj \<Rightarrow>
                            (let articleId = articleId_of subj
                             in if articleId \<noteq> 0
                                then (Continue,
                                      Log DebugLevel ''got address'' #
                                      requestArticle env key msg to articleId)
                                else (Continue,
                                      Log DebugLevel ''got address'' #
                                      sendDigest env key msg to)))))"

text \<open>
  Lines 187 to 203: the sender's key is looked up and decoded, the signature is verified and
  the content is decrypted; each failure is fatal. \<open>msg.Content\<close> at line 200 is a field
  access, which panics on a nil message.
\<close>

definition handleMessage :: "env \<Rightarrow> KeyEntry \<Rightarrow> DMSMessage option \<Rightarrow> control \<times> event list" where
  "handleMessage env key msg =
     (case LookupName env (GetSender msg) of
        Inl err \<Rightarrow> (Exit, [Log FatalLevel ''failed to get receiver public key''])
      | Inr lookupKey \<Rightarrow>
          (case NewPublicFromSerializedCompressed env lookupKey of
             Inl err \<Rightarrow> (Exit, [Log FatalLevel ''invalid receiver public key''])
           | Inr senderKey \<Rightarrow>
               if \<not> VerifySignature env (GetSignature msg) lookupKey (GetContent msg)
               then (Exit, [Log FatalLevel ''signature verification failed''])
               else
                 (case msg of
                    None \<Rightarrow> (Panic, [])
                  | Some m \<Rightarrow>
                      (case Decrypt env (PrivateKey key) (Content m) senderKey of
                         Inl err \<Rightarrow> (Exit, [Log FatalLevel ''failed to decode message''])
                       | Inr content \<Rightarrow> handleContent env key m content))))"

text \<open>
  Lines 173 to 185: the result of \<open>Receive\<close>. An error that is no status error is fatal,
  a status \<open>NotFound\<close> breaks out of the loop, and any other status is fatal.
\<close>

definition handleReceive :: "env \<Rightarrow> KeyEntry \<Rightarrow> error + ReceiveResponse \<Rightarrow> control \<times> event list" where
  "handleReceive env key r =
     (case r of
        Inl err \<Rightarrow>
          (let (st, ok) = FromError err
           in if \<not> ok then (Exit, [Log FatalLevel ''error receiving messages''])
              else if Code st = NotFound then (Break, [])
              else (Exit, [Log FatalLevel ''error receiving messages'']))
      | Inr res \<Rightarrow> handleMessage env key (GetMessage res))"

subsection \<open>The loops\<close>

text \<open>
  The inner loop \<open>for { ... }\<close> of line 172 calls \<open>Receive\<close> until an iteration breaks or
  ends the process; nothing bounds it. The remote inbox is given as the list of the results
  it returns to the successive calls, each with the collaborators as they stand in that
  iteration. If the list runs out while the loop is still going, the outcome is \<open>Continue\<close>:
  the loop would call \<open>Receive\<close> again.
\<close>

fun drain :: "KeyEntry \<Rightarrow> (env \<times> (error + ReceiveResponse)) list \<Rightarrow> control \<times> event list" where
  "drain key [] = (Continue, [])"
| "drain key ((env, r) # rest) =
     (case handleReceive env key r of
        (Continue, evs) \<Rightarrow> (case drain key rest of (c, evs') \<Rightarrow> (c, evs @ evs'))
      | (c, evs) \<Rightarrow> (c, evs))"

text \<open>
  The loop over the keys of line 171, one round of it: the keys are drained in order; the
  next key is taken up when the loop of the one before has ended by \<open>break\<close>. The outcome
  is \<open>Break\<close> when every key has been drained, and otherwise the outcome of the key at
  which the round stopped.
\<close>

fun pollKeys :: "(KeyEntry \<times> (env \<times> (error + ReceiveResponse)) list) list \<Rightarrow> control \<times> event list" where
  "pollKeys [] = (Break, [])"
| "pollKeys ((key, results) # rest) =
     (case drain key results of
        (Break, evs) \<Rightarrow> (case pollKeys rest of (c, evs') \<Rightarrow> (c, evs @ evs'))
      | (c, evs) \<Rightarrow> (c, evs))"

subsection \<open>The vocabulary of the specification of the loop\<close>

text \<open>
  The replies of a list of events are its calls of \<open>SendEmail\<close>. A response of \<open>Receive\<close>
  is a decrypted message when it carries a message and every step before line 205
  succeeds: the lookup of the sender's key, its decoding, the verification of the signature
  and the decryption; \<open>decrypted\<close> gives the message and the decrypted content. A decrypted
  content is a parse failure when the document cannot be read, the \<open>From\<close> addresses
  cannot be read or are not exactly one, or the subject cannot be read.
\<close>

fun is_SendEmail :: "event \<Rightarrow> bool" where
  "is_SendEmail (SendEmail privateKey body sender receiver) = True"
| "is_SendEmail (Log l m) = False"

definition replies :: "event list \<Rightarrow> event list" where
  "replies evs = filter is_SendEmail evs"

definition decrypted :: "env \<Rightarrow> KeyEntry \<Rightarrow> ReceiveResponse \<Rightarrow> (DMSMessage \<times> bytes) option" where
  "decrypted env key res =
     (case Message res of
        None \<Rightarrow> None
      | Some m \<Rightarrow>
          (case LookupName env (Sender m) of
             Inl err \<Rightarrow> None
           | Inr lookupKey \<Rightarrow>
               (case NewPublicFromSerializedCompressed env lookupKey of
                  Inl err \<Rightarrow> None
                | Inr senderKey \<Rightarrow>
                    if VerifySignature env (Signature m) lookupKey (Content m)
                    then (case Decrypt env (PrivateKey key) (Content m) senderKey of
                            Inl err \<Rightarrow> None
                          | Inr content \<Rightarrow> Some (m, content))
                    else None)))"

definition parse_failure :: "env \<Rightarrow> bytes \<Rightarrow> bool" where
  "parse_failure env content =
     (case message_Read env (filterMalformedHeaders content) of
        Inl err \<Rightarrow> True
      | Inr e \<Rightarrow>
          (case AddressList env (Header e) ''From'' of
             Inl err \<Rightarrow> True
           | Inr al \<Rightarrow>
               length al \<noteq> 1 \<or>
               (case header_Subject env (Header e) of Inl err \<Rightarrow> True | Inr subj \<Rightarrow> False)))"

text \<open>
  The parsed document of a decrypted content: the address of the single \<open>From\<close> entry and
  the subject, when there is no parse failure.
\<close>

definition parsed :: "env \<Rightarrow> bytes \<Rightarrow> (string \<times> string) option" where
  "parsed env content =
     (case message_Read env (filterMalformedHeaders content) of
        Inl err \<Rightarrow> None
      | Inr e \<Rightarrow>
          (case AddressList env (Header e) ''From'' of
             Inl err \<Rightarrow> None
           | Inr al \<Rightarrow>
               if length al \<noteq> 1 then None
               else (case header_Subject env (Header e) of
                       Inl err \<Rightarrow> None
                     | Inr subj \<Rightarrow> Some (Address (al ! 0), subj))))"

text \<open>The addressee of the specification's reply router, for a sender name.\<close>

definition reply_addressee :: "string \<Rightarrow> string" where
  "reply_addressee S = (if S = ''gateway'' then ''gateway'' else S)"

subsection \<open>The scenarios of the specification\<close>

text \<open>
  Collaborators for the scenarios: the cache holds the headlines 1 and 2 and the article 2;
  every key is found, every signature verifies, decryption and the document writer are the
  simplest possible (the content as it is; the body after a fixed header line), and a
  document parses to a \<open>From\<close> address given by \<open>froms\<close> and the subject \<open>subj\<close>, or not at
  all when \<open>readable\<close> is false. \<open>sends\<close> tells whether \<open>SendEmail\<close> succeeds.
\<close>

definition scenario_env :: "bool \<Rightarrow> mail_Address list \<Rightarrow> string \<Rightarrow> bool \<Rightarrow> env" where
  "scenario_env readable froms subj sends =
     \<lparr>LookupName = (\<lambda>name. Inr ''key''),
      NewPublicFromSerializedCompressed = (\<lambda>k. Inr k),
      VerifySignature = (\<lambda>sig k c. True),
      Decrypt = (\<lambda>priv c pub. Inr c),
      message_Read = (\<lambda>b. if readable then Inr \<lparr>Header = [(''Subject'', [subj])]\<rparr>
                            else Inl (PlainError ''malformed'')),
      AddressList = (\<lambda>h k. Inr froms),
      header_Subject = (\<lambda>h. Inr subj),
      cache_GetArticle = (\<lambda>i. if i = 2 then Inr (''Ceasefire talks'', ''Full article text'')
                                else Inl (PlainError ''not found'')),
      cache_GetHeadlines = [\<lparr>ID = 1, Title = ''Front line update''\<rparr>,
                            \<lparr>ID = 2, Title = ''Ceasefire talks''\<rparr>],
      time_Now = 0,
      CreateSingleInlineWriter = (\<lambda>h. Inr ''H:''),
      writer_Write = (\<lambda>b body. Inr (b @ body)),
      writer_Close = (\<lambda>b. b),
      protoutil_SendEmail = (\<lambda>priv body sender receiver.
                                if sends then None else Some (PlainError ''unreachable''))\<rparr>"

definition scenario_key :: KeyEntry where
  "scenario_key = \<lparr>PrivateKey = ''priv'', UbikomName = ''war-info'', IdentityProof = ''proof''\<rparr>"

definition scenario_msg :: "string \<Rightarrow> DMSMessage" where
  "scenario_msg sender = \<lparr>Sender = sender, Content = ''content'', Signature = Some ''sig''\<rparr>"

text \<open>
  A second polling key, whose name is not the one of the article sender, and a writer that
  shows what it is given: the header it receives is written out field by field, the
  addresses and the subject in full, and the body follows.
\<close>

definition polling_key :: KeyEntry where
  "polling_key = \<lparr>PrivateKey = ''priv'', UbikomName = ''news-bot'', IdentityProof = ''proof''\<rparr>"

fun render_field :: "header_field \<Rightarrow> bytes" where
  "render_field (DateField t) = ''Date;''"
| "render_field (TextField k v) = k @ '': '' @ v @ '';''"
| "render_field (AddressListField k as) = k @ '': '' @ concat (map Address as) @ '';''"
| "render_field (SubjectField s) = ''Subject: '' @ s @ '';''"

definition rendering_env :: "string \<Rightarrow> env" where
  "rendering_env subj =
     (scenario_env True [\<lparr>Name = [], Address = ''alice''\<rparr>] subj True)
       \<lparr>CreateSingleInlineWriter := (\<lambda>h. Inr (concat (map render_field h)))\<rparr>"

section \<open>Properties of the header sanitation\<close>

lemma HasPrefix_iff: "HasPrefix s pre = prefix pre s"
  unfolding HasPrefix_def
  by (metis prefix_length_le take_is_prefix append_eq_conv_conj prefix_def)

lemma filterLoop_False: "filterLoop False acc ls = acc @ ls"
  by (induction ls arbitrary: acc) auto

lemma filterLoop_True: "filterLoop True acc ls = acc @ sanitize ls"
proof (induction ls arbitrary: acc)
  case Nil
  show ?case by (simp add: sanitize_def)
next
  case (Cons l ls)
  show ?case
  proof (cases "blank_line l")
    case True
    then show ?thesis by (auto simp: blank_line_def sanitize_def filterLoop_False)
  next
    case False
    then show ?thesis using Cons.IH
      by (auto simp: blank_line_def dropped_line_def sanitize_def HasPrefix_iff)
  qed
qed

lemma Split_not_Nil: "Split s sep \<noteq> []"
  by (induction s) (auto split: list.splits)

lemma Split_no_sep: "l \<in> set (Split s sep) \<Longrightarrow> sep \<notin> set l"
  by (induction s arbitrary: l) (auto split: list.splits if_splits)

lemma Split_Join:
  "xs \<noteq> [] \<Longrightarrow> \<forall>l \<in> set xs. sep \<notin> set l \<Longrightarrow> Split (Join xs [sep]) sep = xs"
proof (induction xs "[sep]" rule: Join.induct)
  case 1
  then show ?case by simp
next
  case (2 a)
  then show ?case by (induction a) (auto split: list.splits)
next
  case (3 a b rest)
  then have IH: "Split (Join (b # rest) [sep]) sep = b # rest" by simp
  from 3 have "sep \<notin> set a" by simp
  then show ?case using IH
    by (induction a) (auto split: list.splits)
qed

lemma takeWhile_dropWhile_Nil: "takeWhile P (dropWhile P xs) = []"
  by (induction xs) auto

lemma takeWhile_app_dropWhile:
  "\<forall>x \<in> set xs. P x \<Longrightarrow> takeWhile P (xs @ dropWhile P ys) = xs"
  by (induction xs) (auto simp: takeWhile_dropWhile_Nil)

lemma dropWhile_app_dropWhile:
  "\<forall>x \<in> set xs. P x \<Longrightarrow> dropWhile P (xs @ dropWhile P ys) = dropWhile P ys"
  by (induction xs) auto

lemma sanitize_idem: "sanitize (sanitize ls) = sanitize ls"
proof -
  let ?h = "filter (\<lambda>l. \<not> dropped_line l) (takeWhile (\<lambda>l. \<not> blank_line l) ls)"
  let ?b = "dropWhile (\<lambda>l. \<not> blank_line l) ls"
  have nb: "\<forall>l \<in> set ?h. \<not> blank_line l"
    by (auto dest: set_takeWhileD)
  have t: "takeWhile (\<lambda>l. \<not> blank_line l) (?h @ ?b) = ?h"
    using nb by (rule takeWhile_app_dropWhile)
  have d: "dropWhile (\<lambda>l. \<not> blank_line l) (?h @ ?b) = ?b"
    using nb by (rule dropWhile_app_dropWhile)
  show ?thesis
    unfolding sanitize_def t d by simp
qed

lemma set_sanitize: "set (sanitize ls) \<subseteq> set ls"
  by (auto simp: sanitize_def dest: set_takeWhileD set_dropWhileD)

lemma filterMalformedHeaders_sanitize:
  "filterMalformedHeaders body = Join (sanitize (Split body LF)) [LF]"
  using filterLoop_True [of "[]"] by (simp add: filterMalformedHeaders_def Let_def)

text \<open>
  Claim C3. The filter splits its input at the line feeds, and then: among the lines before
  the first blank line (empty, or a lone carriage return) it drops exactly those that begin
  with \<open>>From\<close> or begin with \<open>From\<close> without a colon right after it, so that a line
  beginning with \<open>From:\<close> is kept; every line from the first blank line on is kept
  unchanged; the kept lines are joined with line feeds again.
\<close>

theorem filterMalformedHeaders_lines:
  "filterMalformedHeaders body =
     Join (filter (\<lambda>l. \<not> (prefix ''>From'' l \<or> prefix ''From'' l \<and> \<not> prefix ''From:'' l))
             (takeWhile (\<lambda>l. l \<noteq> [] \<and> l \<noteq> [CR]) (Split body LF)) @
           dropWhile (\<lambda>l. l \<noteq> [] \<and> l \<noteq> [CR]) (Split body LF)) [LF]
   \<and> (\<forall>l. prefix ''From:'' l \<longrightarrow> \<not> dropped_line l)
   \<and> (\<forall>l. prefix ''>From'' l \<longrightarrow> dropped_line l)
   \<and> (\<forall>l c cs. l = ''From'' \<or> (l = ''From'' @ c # cs \<and> c \<noteq> CHR '':'') \<longrightarrow> dropped_line l)"
proof -
  have "filterMalformedHeaders body = Join (sanitize (Split body LF)) [LF]"
    by (rule filterMalformedHeaders_sanitize)
  then have main: "filterMalformedHeaders body =
     Join (filter (\<lambda>l. \<not> (prefix ''>From'' l \<or> prefix ''From'' l \<and> \<not> prefix ''From:'' l))
             (takeWhile (\<lambda>l. l \<noteq> [] \<and> l \<noteq> [CR]) (Split body LF)) @
           dropWhile (\<lambda>l. l \<noteq> [] \<and> l \<noteq> [CR]) (Split body LF)) [LF]"
    by (simp add: sanitize_def dropped_line_def blank_line_def)
  have keep: "\<forall>l. prefix ''From:'' l \<longrightarrow> \<not> dropped_line l"
    by (auto simp: dropped_line_def prefix_def)
  have quoted: "\<forall>l. prefix ''>From'' l \<longrightarrow> dropped_line l"
    by (simp add: dropped_line_def)
  have bare: "\<forall>l c cs. l = ''From'' \<or> (l = ''From'' @ c # cs \<and> c \<noteq> CHR '':'') \<longrightarrow> dropped_line l"
    by (auto simp: dropped_line_def)
  from main keep quoted bare show ?thesis by blast
qed

text \<open>
  Scenario D of the specification: two malformed lines and a proper \<open>From:\<close> field in
  the header block, and a body line beginning with \<open>From\<close> after the blank line.
\<close>

theorem filterMalformedHeaders_lines_witness:
  "filterMalformedHeaders
     (''>From someone'' @ [LF] @ ''From bob did something'' @ [LF] @ ''From: legit@x'' @ [LF] @
      [LF] @ ''From the editor:'') =
   ''From: legit@x'' @ [LF] @ [LF] @ ''From the editor:''
   \<and> \<not> dropped_line ''From: legit@x'' \<and> dropped_line ''>From someone''
   \<and> dropped_line ''From bob did something''"
  using filterMalformedHeaders_lines
    [of "''>From someone'' @ [LF] @ ''From bob did something'' @ [LF] @ ''From: legit@x'' @ [LF] @
      [LF] @ ''From the editor:''"]
  by (simp add: LF_def CR_def dropped_line_def)

text \<open>
  Claim C4. The filter is idempotent: on every input, applying it to its own output gives
  that output again.
\<close>

theorem filterMalformedHeaders_idempotent:
  "filterMalformedHeaders (filterMalformedHeaders body) = filterMalformedHeaders body"
proof (cases "sanitize (Split body LF) = []")
  case True
  then have "filterMalformedHeaders body = []"
    by (simp add: filterMalformedHeaders_sanitize)
  moreover have "filterMalformedHeaders [] = []"
    by (simp add: filterMalformedHeaders_sanitize sanitize_def blank_line_def)
  ultimately show ?thesis by simp
next
  case False
  have "\<forall>l \<in> set (sanitize (Split body LF)). LF \<notin> set l"
    using set_sanitize Split_no_sep by blast
  with False have "Split (Join (sanitize (Split body LF)) [LF]) LF = sanitize (Split body LF)"
    by (rule Split_Join)
  then show ?thesis
    by (simp add: filterMalformedHeaders_sanitize sanitize_idem)
qed

text \<open>
  The filter run twice on a message whose only line is a malformed header: the first run
  leaves no line at all, and the second run returns the same empty output.
\<close>

theorem filterMalformedHeaders_idempotent_witness:
  "filterMalformedHeaders (filterMalformedHeaders ''From x'') = filterMalformedHeaders ''From x''
   \<and> filterMalformedHeaders ''From x'' = []"
  using filterMalformedHeaders_idempotent [of "''From x''"]
  by (simp add: filterMalformedHeaders_def HasPrefix_def LF_def CR_def)

section \<open>Properties of the subject parser\<close>

lemma unat_of_char: "unat (of_char c :: byte) = (of_char c :: nat)"
proof -
  have "(of_char c :: byte) = of_nat (of_char c)" by (simp add: of_nat_of_char)
  then have "unat (of_char c :: byte) = (of_char c :: nat) mod 256"
    by (simp add: unat_of_nat)
  then show ?thesis by simp
qed

lemma letter_digit_ge_base:
  fixes b :: byte
  assumes "0x61 \<le> b" "b \<le> 0x7A"
  shows "b - 0x61 + 10 \<ge> base"
  using assms unfolding base_def by unat_arith

lemma digit_lt_base:
  fixes b :: byte
  assumes "0x30 \<le> b" "b \<le> 0x39"
  shows "\<not> b - 0x30 \<ge> base" "unat (b - 0x30) = unat b - 48"
  using assms unfolding base_def by unat_arith+

lemma step_ok:
  fixes n :: uint64 and d :: byte
  assumes "unat n \<le> 4294967295" "unat d < 10"
  shows "\<not> n \<ge> maxUint64 div 10 + 1"
    and "unat (n * ucast base + ucast d) = unat n * 10 + unat d"
    and "\<not> n * ucast base + ucast d < n * ucast base"
proof -
  show "\<not> n \<ge> maxUint64 div 10 + 1"
    using assms(1) by (simp add: maxUint64_def word_le_nat_alt)
  have m: "unat (n * ucast base) = unat n * 10"
    using assms(1) by (simp add: base_def unat_word_ariths)
  have u: "unat (ucast d :: uint64) = unat d"
    using assms(2) by (simp add: unsigned_ucast_eq take_bit_nat_eq_self)
  show s: "unat (n * ucast base + ucast d) = unat n * 10 + unat d"
    using assms m u by (simp add: unat_word_ariths)
  show "\<not> n * ucast base + ucast d < n * ucast base"
    using s m by (simp add: word_less_nat_alt)
qed

lemma is_digit_byte:
  "is_digit c \<longleftrightarrow> 0x30 \<le> (of_char c :: byte) \<and> (of_char c :: byte) \<le> 0x39"
  by (simp add: is_digit_def word_le_nat_alt unat_of_char)

lemma digits_from_Cons: "digits_from n (c # cs) = digits_from (10 * n + (of_char c - 48)) cs"
  by (simp add: digits_from_def)

lemma digits_from_Nil: "digits_from n [] = n"
  by (simp add: digits_from_def)

lemma digits_from_ge: "n \<le> digits_from n ds"
proof (induction ds arbitrary: n)
  case Nil
  show ?case by (simp add: digits_from_Nil)
next
  case (Cons c cs)
  have "n \<le> 10 * n + (of_char c - 48)" by simp
  also have "\<dots> \<le> digits_from (10 * n + (of_char c - 48)) cs" by (rule Cons.IH)
  finally show ?case by (simp add: digits_from_Cons)
qed

lemma loop_nondigit:
  assumes "\<not> is_digit c"
  shows "ParseUint_loop cutoff maxVal n (of_char c # bs) = (0, Some ErrSyntax)"
  using assms letter_digit_ge_base [of "lower (of_char c)"]
  by (auto simp: is_digit_byte)

lemma loop_digit:
  assumes "is_digit c" "unat n \<le> 4294967295"
  shows "ParseUint_loop (maxUint64 div 10 + 1) 0xFFFFFFFF n (of_char c # bs) =
     (if unat n * 10 + (of_char c - 48) \<le> 4294967295
      then ParseUint_loop (maxUint64 div 10 + 1) 0xFFFFFFFF (of_nat (unat n * 10 + (of_char c - 48))) bs
      else (0xFFFFFFFF, Some ErrRange))"
proof -
  let ?b = "of_char c :: byte"
  let ?d = "?b - 0x30"
  from assms(1) have b: "0x30 \<le> ?b" "?b \<le> 0x39" by (simp_all add: is_digit_byte)
  have d: "\<not> ?d \<ge> base" "unat ?d = of_char c - 48"
    using digit_lt_base [OF b] by (simp_all add: unat_of_char)
  have "of_char c \<le> (57::nat)" using assms(1) by (simp add: is_digit_def)
  then have d10: "unat ?d < 10" using d(2) by simp
  note st = step_ok [OF assms(2) d10]
  let ?n1 = "n * ucast base + ucast ?d"
  have "?n1 = of_nat (unat ?n1)" by simp
  then have n1: "?n1 = of_nat (unat n * 10 + (of_char c - 48))"
    using st(2) d(2) by simp
  have gt: "?n1 > 0xFFFFFFFF \<longleftrightarrow> \<not> unat n * 10 + (of_char c - 48) \<le> 4294967295"
    using st(2) d(2) by (simp add: word_less_nat_alt not_le)
  show ?thesis
    using b d(1) st(1) st(3) gt n1 by (simp add: Let_def)
qed


lemma loop_digits_append:
  assumes "list_all is_digit ds" "unat n \<le> 4294967295"
  shows "ParseUint_loop (maxUint64 div 10 + 1) 0xFFFFFFFF n (map of_char ds @ bs) =
     (if digits_from (unat n) ds \<le> 4294967295
      then ParseUint_loop (maxUint64 div 10 + 1) 0xFFFFFFFF (of_nat (digits_from (unat n) ds)) bs
      else (0xFFFFFFFF, Some ErrRange))"
  using assms
proof (induction ds arbitrary: n)
  case Nil
  then show ?case by (simp add: digits_from_Nil)
next
  case (Cons c cs)
  let ?m = "unat n * 10 + (of_char c - 48)"
  from Cons.prems have c: "is_digit c" and cs: "list_all is_digit cs" by simp_all
  have step: "ParseUint_loop (maxUint64 div 10 + 1) 0xFFFFFFFF n (map of_char (c # cs) @ bs) =
     (if ?m \<le> 4294967295
      then ParseUint_loop (maxUint64 div 10 + 1) 0xFFFFFFFF (of_nat ?m) (map of_char cs @ bs)
      else (0xFFFFFFFF, Some ErrRange))"
    using loop_digit [OF c Cons.prems(2)] by simp
  have df: "digits_from (unat n) (c # cs) = digits_from ?m cs"
    by (simp add: digits_from_Cons mult.commute)
  show ?case
  proof (cases "?m \<le> 4294967295")
    case True
    have "unat (of_nat ?m :: uint64) = ?m mod 2 ^ LENGTH(64)"
      by (rule unat_of_nat)
    also have "\<dots> = ?m" using True by simp
    finally have u: "unat (of_nat ?m :: uint64) = ?m" .
    with True have "unat (of_nat ?m :: uint64) \<le> 4294967295" by simp
    from Cons.IH [OF cs this] show ?thesis
      unfolding step df u using True by simp
  next
    case False
    moreover have "?m \<le> digits_from ?m cs" by (rule digits_from_ge)
    ultimately have "\<not> digits_from ?m cs \<le> 4294967295" by simp
    with False show ?thesis unfolding step df by simp
  qed
qed

lemma ParseUint_eq:
  "ParseUint s =
     (if s = [] then (0, Some ErrSyntax)
      else if digits_value (takeWhile is_digit s) > 4294967295 then (0xFFFFFFFF, Some ErrRange)
      else if list_all is_digit s then (of_nat (digits_value s), None)
      else (0, Some ErrSyntax))"
proof (cases "s = []")
  case True
  then show ?thesis by (simp add: ParseUint_def)
next
  case False
  let ?ds = "takeWhile is_digit s" and ?rest = "dropWhile is_digit s"
  have split: "map of_char s = map of_char ?ds @ map of_char ?rest"
    by (metis map_append takeWhile_dropWhile_id)
  have ds: "list_all is_digit ?ds"
    by (auto simp: list_all_iff dest: set_takeWhileD)
  have "ParseUint s = ParseUint_loop (maxUint64 div 10 + 1) 0xFFFFFFFF 0 (map of_char s)"
    using False by (simp add: ParseUint_def bitSize_def Let_def)
  also have "\<dots> = ParseUint_loop (maxUint64 div 10 + 1) 0xFFFFFFFF 0 (map of_char ?ds @ map of_char ?rest)"
    using split by (rule arg_cong)
  also have "\<dots> = (if digits_value ?ds \<le> 4294967295
      then ParseUint_loop (maxUint64 div 10 + 1) 0xFFFFFFFF (of_nat (digits_value ?ds)) (map of_char ?rest)
      else (0xFFFFFFFF, Some ErrRange))"
    using loop_digits_append [OF ds, of 0] by (simp add: digits_value_def)
  finally have eq: "ParseUint s = (if digits_value ?ds \<le> 4294967295
      then ParseUint_loop (maxUint64 div 10 + 1) 0xFFFFFFFF (of_nat (digits_value ?ds)) (map of_char ?rest)
      else (0xFFFFFFFF, Some ErrRange))" .
  show ?thesis
  proof (cases "list_all is_digit s")
    case True
    then have tk: "?ds = s" and dr: "?rest = []" by (simp_all add: list_all_iff)
    have "ParseUint s = (if digits_value s \<le> 4294967295
      then (of_nat (digits_value s), None) else (0xFFFFFFFF, Some ErrRange))"
      using eq unfolding tk dr by simp
    then show ?thesis unfolding tk using False True by simp
  next
    case nd: False
    then obtain c cs where r: "?rest = c # cs" and c: "\<not> is_digit c"
      by (metis dropWhile_eq_Nil_conv hd_dropWhile list.exhaust list.sel(1) list_all_iff)
    have "ParseUint_loop (maxUint64 div 10 + 1) 0xFFFFFFFF (of_nat (digits_value ?ds)) (map of_char ?rest)
          = (0, Some ErrSyntax)"
      unfolding r using loop_nondigit [OF c] by simp
    then show ?thesis using eq False nd by simp
  qed
qed


lemma ParseInt_unfold:
  "ParseInt s =
     (if s = [] then (0, Some ErrSyntax)
      else case ParseUint (unsigned_part s) of
        (un, err) \<Rightarrow>
          if err = Some ErrSyntax then (0, err)
          else if \<not> is_negative s \<and> un \<ge> 0x80000000 then (0x7FFFFFFF, Some ErrRange)
          else if is_negative s \<and> un > 0x80000000 then (- 0x80000000, Some ErrRange)
          else (if is_negative s then - un else un, None))"
proof (cases s)
  case Nil
  then show ?thesis by (simp add: ParseInt_def)
next
  case (Cons c cs)
  have s': "(if hd s = CHR ''+'' \<or> is_negative s then tl s else s) = unsigned_part s"
    by (simp add: Cons unsigned_part_def is_negative_def)
  have neg: "(hd s = CHR ''-'') = is_negative s"
    by (simp add: Cons is_negative_def)
  obtain un err where pu: "ParseUint (unsigned_part s) = (un, err)"
    by fastforce
  have e: "(err \<noteq> None \<and> err \<noteq> Some ErrRange) = (err = Some ErrSyntax)"
    by (cases err) (auto intro: NumError.exhaust)
  have ne: "s \<noteq> []" using Cons by simp
  have "ParseInt s =
     (if err \<noteq> None \<and> err \<noteq> Some ErrRange then (0, err)
      else if \<not> is_negative s \<and> un \<ge> 0x80000000 then (0x7FFFFFFF, Some ErrRange)
      else if is_negative s \<and> un > 0x80000000 then (- 0x80000000, Some ErrRange)
      else (if is_negative s then - un else un, None))"
    unfolding ParseInt_def Let_def neg s' pu using ne by (simp add: bitSize_def)
  then show ?thesis unfolding e using ne pu by simp
qed

lemma word_of_nat_cmp:
  assumes "v \<le> 4294967295"
  shows "(of_nat v :: uint64) \<ge> 0x80000000 \<longleftrightarrow> v \<ge> 2147483648"
    and "(of_nat v :: uint64) > 0x80000000 \<longleftrightarrow> v > 2147483648"
proof -
  have "unat (of_nat v :: uint64) = v mod 2 ^ LENGTH(64)" by (rule unat_of_nat)
  also have "\<dots> = v" using assms by simp
  finally have u: "unat (of_nat v :: uint64) = v" .
  show "(of_nat v :: uint64) \<ge> 0x80000000 \<longleftrightarrow> v \<ge> 2147483648"
    by (simp add: word_le_nat_alt u)
  show "(of_nat v :: uint64) > 0x80000000 \<longleftrightarrow> v > 2147483648"
    by (simp add: word_less_nat_alt u)
qed

lemma ParseInt_eq:
  "ParseInt s =
     (if unsigned_part s = [] then (0, Some ErrSyntax)
      else if digits_value (takeWhile is_digit (unsigned_part s)) > 4294967295
        then (if is_negative s then - 0x80000000 else 0x7FFFFFFF, Some ErrRange)
      else if \<not> list_all is_digit (unsigned_part s) then (0, Some ErrSyntax)
      else if \<not> is_negative s \<and> digits_value (unsigned_part s) \<ge> 2147483648
        then (0x7FFFFFFF, Some ErrRange)
      else if is_negative s \<and> digits_value (unsigned_part s) > 2147483648
        then (- 0x80000000, Some ErrRange)
      else (if is_negative s then - of_nat (digits_value (unsigned_part s))
            else of_nat (digits_value (unsigned_part s)), None))"
proof (cases "s = []")
  case True
  then show ?thesis by (simp add: ParseInt_def unsigned_part_def)
next
  case False
  let ?b = "unsigned_part s"
  show ?thesis
  proof (cases "?b = []")
    case True
    then show ?thesis using False by (simp add: ParseInt_unfold ParseUint_eq)
  next
    case b: False
    show ?thesis
    proof (cases "digits_value (takeWhile is_digit ?b) > 4294967295")
      case True
      then show ?thesis using False b by (simp add: ParseInt_unfold ParseUint_eq)
    next
      case small: False
      show ?thesis
      proof (cases "list_all is_digit ?b")
        case nd: False
        then show ?thesis using False b small by (simp add: ParseInt_unfold ParseUint_eq)
      next
        case True
        then have tk: "takeWhile is_digit ?b = ?b" by (simp add: list_all_iff)
        from small have v: "digits_value ?b \<le> 4294967295" unfolding tk by simp
        have pu: "ParseUint ?b = (of_nat (digits_value ?b), None)"
          using b v True by (simp add: ParseUint_eq tk)
        show ?thesis
          using False b small True word_of_nat_cmp [OF v]
          by (simp add: ParseInt_unfold pu tk)
      qed
    qed
  qed
qed


lemma sint_word_of_int:
  assumes "- 9223372036854775808 \<le> k" "k < 9223372036854775808"
  shows "sint (word_of_int k :: int64) = k"
proof -
  have "signed_take_bit (LENGTH(64) - Suc 0) k = k"
    using assms by (intro signed_take_bit_int_eq_self) simp_all
  then show ?thesis by (simp add: signed_of_int)
qed

lemma parse_decimal_SomeD:
  assumes "parse_decimal s = Some n"
  shows "unsigned_part s \<noteq> []" "list_all is_digit (unsigned_part s)"
    "takeWhile is_digit (unsigned_part s) = unsigned_part s"
    "n = (if is_negative s then - int (digits_value (unsigned_part s))
          else int (digits_value (unsigned_part s)))"
  using assms by (auto simp: parse_decimal_def list_all_iff split: if_splits)

lemma parse_decimal_NoneD:
  assumes "parse_decimal s = None"
  shows "unsigned_part s = [] \<or> \<not> list_all is_digit (unsigned_part s)"
  using assms by (auto simp: parse_decimal_def split: if_splits)

lemma ParseInt_in_range:
  assumes "parse_decimal s = Some n" "- 2147483648 \<le> n" "n \<le> 2147483647"
  shows "ParseInt s = (word_of_int n, None)"
proof -
  note d = parse_decimal_SomeD [OF assms(1)]
  let ?v = "digits_value (unsigned_part s)"
  show ?thesis
  proof (cases "is_negative s")
    case True
    with d(4) assms(2) have v: "?v \<le> 2147483648" by simp
    from True d(4) have "word_of_int n = (- of_nat ?v :: int64)" by simp
    then show ?thesis using d(1,2) v True by (simp add: ParseInt_eq d(3))
  next
    case False
    with d(4) assms(3) have v: "?v \<le> 2147483647" by simp
    from False d(4) have "word_of_int n = (of_nat ?v :: int64)" by simp
    then show ?thesis using d(1,2) v False by (simp add: ParseInt_eq d(3))
  qed
qed

lemma ParseInt_syntax:
  assumes "parse_decimal s = None" "leading_value s \<le> 4294967295"
  shows "ParseInt s = (0, Some ErrSyntax)"
  using parse_decimal_NoneD [OF assms(1)] assms(2)
  by (auto simp: ParseInt_eq leading_value_def)

lemma ParseInt_overflow:
  assumes "\<not> no_overflow s"
  shows "ParseInt s = (if is_negative s then - 0x80000000 else 0x7FFFFFFF, Some ErrRange)"
proof (cases "parse_decimal s")
  case None
  with assms have big: "leading_value s > 4294967295" by (simp add: no_overflow_def)
  then have "unsigned_part s \<noteq> []"
    by (auto simp: leading_value_def digits_value_def digits_from_def)
  with big show ?thesis by (simp add: ParseInt_eq leading_value_def)
next
  case (Some n)
  note d = parse_decimal_SomeD [OF Some]
  let ?v = "digits_value (unsigned_part s)"
  from assms Some have out: "n < - 2147483648 \<or> n > 2147483647" by (auto simp: no_overflow_def)
  show ?thesis
  proof (cases "is_negative s")
    case True
    with d(4) out have "?v > 2147483648" by auto
    then show ?thesis using d(1,2) True by (simp add: ParseInt_eq d(3))
  next
    case False
    with d(4) out have "?v \<ge> 2147483648" by auto
    then show ?thesis using d(1,2) False by (simp add: ParseInt_eq d(3))
  qed
qed

lemma articleId_of_eq: "articleId_of s = fst (ParseInt s)"
  by (simp add: articleId_of_def ParseInt_def)

lemma derive_intent_no_overflow:
  assumes "no_overflow s"
  shows "derive_intent s =
     (case parse_decimal s of
        Some n \<Rightarrow> if n \<noteq> 0 then ArticleRequest n else Digest
      | None \<Rightarrow> Digest)"
proof (cases "parse_decimal s")
  case None
  with assms have "leading_value s \<le> 4294967295" by (simp add: no_overflow_def)
  with None have "ParseInt s = (0, Some ErrSyntax)" by (rule ParseInt_syntax)
  then show ?thesis using None by (simp add: derive_intent_def articleId_of_eq)
next
  case (Some n)
  with assms have r: "- 2147483648 \<le> n" "n \<le> 2147483647" by (simp_all add: no_overflow_def)
  have p: "ParseInt s = (word_of_int n, None)" using Some r by (rule ParseInt_in_range)
  have s: "sint (word_of_int n :: int64) = n" using r by (intro sint_word_of_int) simp_all
  have z: "(word_of_int n :: int64) = 0 \<longleftrightarrow> n = 0"
    using s by (metis sint_0 word_of_int_0)
  show ?thesis using Some by (simp add: derive_intent_def articleId_of_eq p s z)
qed

lemma derive_intent_overflow:
  assumes "\<not> no_overflow s"
  shows "derive_intent s = ArticleRequest (if is_negative s then - 2147483648 else 2147483647)"
  using ParseInt_overflow [OF assms]
  by (simp add: derive_intent_def articleId_of_eq)

lemma parse_decimal_eval:
  "parse_decimal s =
     (if unsigned_part s \<noteq> [] \<and> (\<forall>c \<in> set (unsigned_part s). is_digit c)
      then Some (if is_negative s then - int (foldl (\<lambda>n c. 10 * n + (of_char c - 48)) 0 (unsigned_part s))
                 else int (foldl (\<lambda>n c. 10 * n + (of_char c - 48)) 0 (unsigned_part s)))
      else None)"
  by (simp add: parse_decimal_def digits_value_def digits_from_def list_all_iff)

text \<open>
  Claim C1, as amended. For every subject without overflow (a subject that parses in full as
  a base-10 integer within the signed 32-bit range, or one that does not parse in full and
  whose digits before the first other byte stay below \<open>2 ^ 32\<close>): if it parses in full as
  \<open>n\<close> and \<open>n\<close> is not 0 the intent is \<open>ArticleRequest n\<close>; if it parses as 0, or does not
  parse (the empty subject included), the intent is \<open>Digest\<close>.
\<close>

theorem derive_intent_parse_decimal:
  assumes "no_overflow s"
  shows "derive_intent s =
     (case parse_decimal s of
        Some n \<Rightarrow> if n \<noteq> 0 then ArticleRequest n else Digest
      | None \<Rightarrow> Digest)"
  using assms by (rule derive_intent_no_overflow)

text \<open>
  The subjects \<open>2\<close>, \<open>0\<close>, the empty subject, \<open>abc\<close> and \<open>2\<close> followed by a space: each
  is without overflow, and the theorem gives its intent.
\<close>

theorem derive_intent_parse_decimal_witness:
  "no_overflow ''2'' \<and> derive_intent ''2'' = ArticleRequest 2
   \<and> no_overflow ''0'' \<and> derive_intent ''0'' = Digest
   \<and> no_overflow [] \<and> derive_intent [] = Digest
   \<and> no_overflow ''abc'' \<and> derive_intent ''abc'' = Digest
   \<and> no_overflow ''2 '' \<and> derive_intent ''2 '' = Digest"
proof -
  have n1: "no_overflow ''2''" and p1: "parse_decimal ''2'' = Some 2"
    by (simp_all add: no_overflow_def parse_decimal_eval unsigned_part_def is_negative_def is_digit_def)
  have n2: "no_overflow ''0''" and p2: "parse_decimal ''0'' = Some 0"
    by (simp_all add: no_overflow_def parse_decimal_eval unsigned_part_def is_negative_def is_digit_def)
  have n3: "no_overflow []" and p3: "parse_decimal [] = None"
    by (simp_all add: no_overflow_def parse_decimal_eval unsigned_part_def leading_value_def
        digits_value_def digits_from_def)
  have n4: "no_overflow ''abc''" and p4: "parse_decimal ''abc'' = None"
    by (simp_all add: no_overflow_def parse_decimal_eval unsigned_part_def is_digit_def
        leading_value_def digits_value_def digits_from_def)
  have n5: "no_overflow ''2 ''" and p5: "parse_decimal ''2 '' = None"
    by (simp_all add: no_overflow_def parse_decimal_eval unsigned_part_def is_digit_def
        leading_value_def digits_value_def digits_from_def)
  show ?thesis
    using derive_intent_parse_decimal [OF n1] derive_intent_parse_decimal [OF n2]
      derive_intent_parse_decimal [OF n3] derive_intent_parse_decimal [OF n4]
      derive_intent_parse_decimal [OF n5]
    by (simp add: n1 n2 n3 n4 n5 p1 p2 p3 p4 p5)
qed

text \<open>
  Claim C1 as stated fails on the subject \<open>2147483648\<close>. It parses in full as the non-zero
  integer 2147483648, and \<open>ParseInt\<close> fails on it with a range error; the intent is neither
  \<open>ArticleRequest 2147483648\<close> nor \<open>Digest\<close>, but a request for article 2147483647, the
  bound that \<open>ParseInt\<close> returns along with the discarded error.
\<close>

theorem derive_intent_range_counterexample:
  "parse_decimal ''2147483648'' = Some 2147483648
   \<and> snd (ParseInt ''2147483648'') = Some ErrRange
   \<and> derive_intent ''2147483648'' = ArticleRequest 2147483647
   \<and> derive_intent ''2147483648'' \<noteq> ArticleRequest 2147483648
   \<and> derive_intent ''2147483648'' \<noteq> Digest"
proof -
  have p: "parse_decimal ''2147483648'' = Some 2147483648"
    by (simp add: parse_decimal_eval unsigned_part_def is_negative_def is_digit_def)
  then have o: "\<not> no_overflow ''2147483648''"
    by (simp add: no_overflow_def)
  have neg: "\<not> is_negative ''2147483648''"
    by (simp add: is_negative_def)
  show ?thesis
    using p ParseInt_overflow [OF o] derive_intent_overflow [OF o] neg by simp
qed

lemma derive_intent_only:
  assumes "no_overflow s" "derive_intent s = ArticleRequest k"
  shows "parse_decimal s = Some k \<and> k \<noteq> 0"
  using derive_intent_no_overflow [OF assms(1)] assms(2)
  by (auto split: option.splits if_splits)

lemma parse_decimal_overflow_text:
  "parse_decimal ''4294967296x'' = None"
  by (simp add: parse_decimal_eval unsigned_part_def is_digit_def)

lemma leading_value_overflow_text: "leading_value ''4294967296x'' = 4294967296"
  by (simp add: leading_value_def unsigned_part_def is_digit_def digits_value_def digits_from_def)

text \<open>
  Claim C2, as amended. For every subject without overflow: an empty or otherwise
  non-numeric subject and a subject that parses as 0 yield \<open>Digest\<close>; a subject that parses
  in full as a negative integer \<open>n\<close> yields \<open>ArticleRequest n\<close>, and so does one that parses
  in full as a positive integer; and \<open>ArticleRequest k\<close> arises only from a subject that
  parses in full as \<open>k\<close>, with \<open>k\<close> other than 0.
\<close>

theorem derive_intent_sign:
  assumes "no_overflow s"
  shows "(parse_decimal s = None \<longrightarrow> derive_intent s = Digest)
   \<and> (parse_decimal s = Some 0 \<longrightarrow> derive_intent s = Digest)
   \<and> (parse_decimal s = Some n \<and> n < 0 \<longrightarrow> derive_intent s = ArticleRequest n)
   \<and> (parse_decimal s = Some n \<and> 0 < n \<longrightarrow> derive_intent s = ArticleRequest n)
   \<and> (derive_intent s = ArticleRequest k \<longrightarrow> parse_decimal s = Some k \<and> k \<noteq> 0)"
proof -
  note di = derive_intent_no_overflow [OF assms]
  have a: "parse_decimal s = None \<longrightarrow> derive_intent s = Digest"
    using di by simp
  have b: "parse_decimal s = Some 0 \<longrightarrow> derive_intent s = Digest"
    using di by simp
  have c: "parse_decimal s = Some n \<and> n < 0 \<longrightarrow> derive_intent s = ArticleRequest n"
    using di by auto
  have d: "parse_decimal s = Some n \<and> 0 < n \<longrightarrow> derive_intent s = ArticleRequest n"
    using di by auto
  have e: "derive_intent s = ArticleRequest k \<longrightarrow> parse_decimal s = Some k \<and> k \<noteq> 0"
    using derive_intent_only [OF assms] by blast
  from a b c d e show ?thesis by blast
qed

text \<open>
  The empty subject, \<open>abc\<close> and \<open>0\<close> give a digest; \<open>-5\<close> and \<open>7\<close> give a request.
\<close>

theorem derive_intent_sign_witness:
  "no_overflow [] \<and> parse_decimal [] = None \<and> derive_intent [] = Digest
   \<and> no_overflow ''abc'' \<and> parse_decimal ''abc'' = None \<and> derive_intent ''abc'' = Digest
   \<and> no_overflow ''0'' \<and> parse_decimal ''0'' = Some 0 \<and> derive_intent ''0'' = Digest
   \<and> no_overflow ''-5'' \<and> parse_decimal ''-5'' = Some (- 5) \<and> derive_intent ''-5'' = ArticleRequest (- 5)
   \<and> no_overflow ''7'' \<and> parse_decimal ''7'' = Some 7 \<and> derive_intent ''7'' = ArticleRequest 7"
proof -
  have p1: "parse_decimal [] = None" and n1: "no_overflow []"
    by (simp_all add: no_overflow_def parse_decimal_eval unsigned_part_def leading_value_def
        digits_value_def digits_from_def)
  have p2: "parse_decimal ''abc'' = None" and n2: "no_overflow ''abc''"
    by (simp_all add: no_overflow_def parse_decimal_eval unsigned_part_def is_digit_def
        leading_value_def digits_value_def digits_from_def)
  have p3: "parse_decimal ''0'' = Some 0" and n3: "no_overflow ''0''"
    by (simp_all add: no_overflow_def parse_decimal_eval unsigned_part_def is_negative_def is_digit_def)
  have p4: "parse_decimal ''-5'' = Some (- 5)" and n4: "no_overflow ''-5''"
    by (simp_all add: no_overflow_def parse_decimal_eval unsigned_part_def is_negative_def is_digit_def)
  have p5: "parse_decimal ''7'' = Some 7" and n5: "no_overflow ''7''"
    by (simp_all add: no_overflow_def parse_decimal_eval unsigned_part_def is_negative_def is_digit_def)
  have d1: "derive_intent [] = Digest"
    using derive_intent_sign [OF n1, of 0 0] p1 by blast
  have d2: "derive_intent ''abc'' = Digest"
    using derive_intent_sign [OF n2, of 0 0] p2 by blast
  have d3: "derive_intent ''0'' = Digest"
    using derive_intent_sign [OF n3, of 0 0] p3 by blast
  have d4: "derive_intent ''-5'' = ArticleRequest (- 5)"
    using derive_intent_sign [OF n4, of "- 5" 0] p4 by simp
  have d5: "derive_intent ''7'' = ArticleRequest 7"
    using derive_intent_sign [OF n5, of 7 0] p5 by simp
  from p1 n1 d1 p2 n2 d2 p3 n3 d3 p4 n4 d4 p5 n5 d5 show ?thesis by blast
qed

text \<open>
  Claim C2 as stated fails on the subject \<open>-5\<close>: it parses in full as the negative integer
  -5, and the intent is not \<open>Digest\<close> but a request for article -5. It fails as well on
  \<open>4294967296x\<close>, a non-numeric subject whose digits overflow: the intent is not \<open>Digest\<close>
  but a request for article 2147483647.
\<close>

theorem derive_intent_negative_counterexample:
  "parse_decimal ''-5'' = Some (- 5)
   \<and> derive_intent ''-5'' = ArticleRequest (- 5)
   \<and> derive_intent ''-5'' \<noteq> Digest
   \<and> parse_decimal ''4294967296x'' = None
   \<and> derive_intent ''4294967296x'' = ArticleRequest 2147483647
   \<and> derive_intent ''4294967296x'' \<noteq> Digest"
proof -
  have p: "parse_decimal ''-5'' = Some (- 5)"
    by (simp add: parse_decimal_eval unsigned_part_def is_negative_def is_digit_def)
  then have n: "no_overflow ''-5''"
    by (simp add: no_overflow_def)
  have a: "derive_intent ''-5'' = ArticleRequest (- 5)"
    using derive_intent_no_overflow [OF n] p by simp
  have q: "parse_decimal ''4294967296x'' = None"
    by (rule parse_decimal_overflow_text)
  have o: "\<not> no_overflow ''4294967296x''"
    by (simp add: no_overflow_def q leading_value_overflow_text)
  have neg: "\<not> is_negative ''4294967296x''"
    by (simp add: is_negative_def)
  have b: "derive_intent ''4294967296x'' = ArticleRequest 2147483647"
    using derive_intent_overflow [OF o] neg by simp
  from p a q b show ?thesis by simp
qed

section \<open>Properties of the poll loop\<close>

subsection \<open>The steps of an iteration\<close>

lemma foldl_append_concat:
  "foldl (\<lambda>buf h. buf @ f h) acc hs = acc @ concat (map f hs)"
  by (induction hs arbitrary: acc) simp_all

lemma digestBody_eq: "digestBody hs = header @ concat (map headline_line hs) @ footer"
  by (simp add: digestBody_def foldl_append_concat)

lemma parse_failure_or_parsed:
  "parse_failure env content \<longleftrightarrow> parsed env content = None"
  by (auto simp: parse_failure_def parsed_def split: sum.splits)

lemma handleContent_parsed:
  assumes "parsed env content = Some (to, subj)"
  shows "handleContent env key msg content =
     (Continue, Log DebugLevel ''got address'' #
        (if articleId_of subj \<noteq> 0 then requestArticle env key msg to (articleId_of subj)
         else sendDigest env key msg to))"
  using assms
  by (auto simp: parsed_def handleContent_def Let_def split: sum.splits if_splits)

lemma handleContent_failure:
  assumes "parse_failure env content"
  shows "\<exists>m. handleContent env key msg content = (Continue, [Log ErrorLevel m])"
  using assms
  by (auto simp: parse_failure_def handleContent_def Let_def split: sum.splits)

lemma handleContent_Continue: "fst (handleContent env key msg content) = Continue"
  by (simp add: handleContent_def Let_def split: sum.splits)

lemma decrypted_handleReceive:
  assumes "decrypted env key res = Some (m, content)"
  shows "handleReceive env key (Inr res) = handleContent env key m content"
  using assms
  by (auto simp: decrypted_def handleReceive_def handleMessage_def GetMessage_def GetSender_def
      GetSignature_def GetContent_def split: option.splits sum.splits if_splits)

lemma drain_Cons_Continue:
  assumes "handleReceive env key r = (Continue, evs)"
  shows "drain key ((env, r) # rest) = (fst (drain key rest), evs @ snd (drain key rest))"
  using assms by (simp split: prod.splits)

lemma drain_Cons_stop:
  assumes "handleReceive env key r = (c, evs)" "c \<noteq> Continue"
  shows "drain key ((env, r) # rest) = (c, evs)"
  using assms by (cases c) simp_all

lemma drain_append:
  assumes "fst (drain key pre) = Continue"
  shows "drain key (pre @ rest) = (fst (drain key rest), snd (drain key pre) @ snd (drain key rest))"
  using assms
proof (induction pre)
  case Nil
  then show ?case by simp
next
  case (Cons a pre)
  obtain env r where a: "a = (env, r)" by (cases a)
  obtain c evs where h: "handleReceive env key r = (c, evs)" by (cases "handleReceive env key r")
  show ?case
  proof (cases "c = Continue")
    case True
    with h Cons.prems a have "fst (drain key pre) = Continue"
      by (simp split: prod.splits)
    from Cons.IH [OF this] show ?thesis using h True a
      by (simp split: prod.splits)
  next
    case False
    with h Cons.prems a show ?thesis by (cases c) simp_all
  qed
qed

lemma handleReceive_error:
  "handleReceive env key (Inl err) =
     (case err of
        GRPCStatus c m \<Rightarrow>
          if c = NotFound then (Break, []) else (Exit, [Log FatalLevel ''error receiving messages''])
      | PlainError m \<Rightarrow> (Exit, [Log FatalLevel ''error receiving messages'']))"
  by (simp add: handleReceive_def FromError_def Code_def split: error.splits)

lemma replies_sendDigest:
  "replies (sendDigest env key msg to) =
     [SendEmail (PrivateKey key)
        (case CreateTextEmail env (digestEmail env key to) of Inl err \<Rightarrow> [] | Inr b \<Rightarrow> b)
        (UbikomName key) (reply_addressee (Sender msg))]"
  by (simp add: replies_def sendDigest_def reply_addressee_def Let_def split: sum.splits option.splits)

lemma replies_sendArticle:
  "replies (snd (sendArticle env text headline to name S pk)) =
     (case CreateTextEmail env (articleEmail env text headline to) of
        Inl err \<Rightarrow> []
      | Inr b \<Rightarrow> [SendEmail pk b name (reply_addressee S)])"
  by (simp add: replies_def sendArticle_def reply_addressee_def Let_def split: sum.splits option.splits)

lemma fst_sendArticle:
  "fst (sendArticle env text headline to name S pk) =
     (case CreateTextEmail env (articleEmail env text headline to) of
        Inl err \<Rightarrow> Some err
      | Inr b \<Rightarrow> None)"
  by (simp add: sendArticle_def Let_def split: sum.splits option.splits)

lemma replies_requestArticle:
  "replies (requestArticle env key msg to articleId) =
     (case cache_GetArticle env (sint articleId) of
        Inl err \<Rightarrow> []
      | Inr (headline, text) \<Rightarrow>
          replies (snd (sendArticle env text headline to (UbikomName key) (Sender msg) (PrivateKey key))))"
proof -
  have r: "\<And>evs. replies (Log DebugLevel ''getting article'' # evs) = replies evs"
    by (simp add: replies_def)
  show ?thesis
    unfolding requestArticle_def r
    by (auto simp: replies_def split: sum.splits prod.splits option.splits)
qed

lemma replies_Log: "replies (Log l m # evs) = replies evs"
  by (simp add: replies_def)

lemma replies_handleContent:
  "replies (snd (handleContent env key msg content)) =
     (case parsed env content of
        None \<Rightarrow> []
      | Some (to, subj) \<Rightarrow>
          if articleId_of subj \<noteq> 0 then replies (requestArticle env key msg to (articleId_of subj))
          else replies (sendDigest env key msg to))"
proof (cases "parsed env content")
  case None
  then have "parse_failure env content" by (simp add: parse_failure_or_parsed)
  from handleContent_failure [OF this, of key msg] None show ?thesis
    by (auto simp: replies_def)
next
  case (Some p)
  obtain to subj where p: "p = (to, subj)" by (cases p)
  from Some p have "parsed env content = Some (to, subj)" by simp
  from handleContent_parsed [OF this, of key msg] Some p show ?thesis
    by (simp add: replies_Log)
qed

lemma in_replies: "SendEmail pk b n R \<in> set evs \<longleftrightarrow> SendEmail pk b n R \<in> set (replies evs)"
  by (simp add: replies_def)

lemma replies_handleContent_receiver:
  assumes "SendEmail pk b n R \<in> set (snd (handleContent env key msg content))"
  shows "R = reply_addressee (Sender msg)"
proof -
  from assms have "SendEmail pk b n R \<in> set (replies (snd (handleContent env key msg content)))"
    by (simp add: in_replies [symmetric])
  then show ?thesis
    unfolding replies_handleContent
    by (auto simp: replies_requestArticle replies_sendArticle replies_sendDigest
        split: option.splits if_splits sum.splits prod.splits)
qed

lemma nat_digits_small: "n < 10 \<Longrightarrow> nat_digits n = [char_of (48 + n)]"
  by (simp add: nat_digits.simps)

lemma FormatInt_1: "FormatInt 1 = ''1''"
  by (simp add: FormatInt_def nat_digits_small char_of_eq_iff)

lemma FormatInt_2: "FormatInt 2 = ''2''"
  by (simp add: FormatInt_def nat_digits_small char_of_eq_iff)

lemma articleId_of_Nil: "articleId_of [] = 0"
  by (simp add: articleId_of_def)

lemma derive_intent_Digest_iff: "derive_intent subj = Digest \<longleftrightarrow> articleId_of subj = 0"
  by (simp add: derive_intent_def)

lemma derive_intent_ArticleRequest_iff:
  "derive_intent subj = ArticleRequest n \<longleftrightarrow> articleId_of subj \<noteq> 0 \<and> sint (articleId_of subj) = n"
  by (simp add: derive_intent_def)

lemma scenario_parsed:
  "parsed (scenario_env True [\<lparr>Name = [], Address = a\<rparr>] subj sends) content = Some (a, subj)"
  by (simp add: parsed_def scenario_env_def)

lemma scenario_CreateTextEmail:
  "CreateTextEmail (scenario_env readable froms subj sends) email = Inr (''H:'' @ Body email)"
  by (simp add: CreateTextEmail_def scenario_env_def Let_def split: option.splits)

lemma scenario_decrypted:
  "decrypted (scenario_env readable froms subj sends) scenario_key \<lparr>Message = Some (scenario_msg S)\<rparr>
     = Some (scenario_msg S, ''content'')"
  by (simp add: decrypted_def scenario_env_def scenario_msg_def scenario_key_def)

lemma articleId_of_2: "articleId_of ''2'' = 2"
proof -
  have "parse_decimal ''2'' = Some 2"
    by (simp add: parse_decimal_eval unsigned_part_def is_negative_def is_digit_def)
  then have "ParseInt ''2'' = (word_of_int 2, None)"
    by (rule ParseInt_in_range) simp_all
  then show ?thesis by (simp add: articleId_of_eq)
qed

lemma articleId_of_99: "articleId_of ''99'' = 99"
proof -
  have "parse_decimal ''99'' = Some 99"
    by (simp add: parse_decimal_eval unsigned_part_def is_negative_def is_digit_def)
  then have "ParseInt ''99'' = (word_of_int 99, None)"
    by (rule ParseInt_in_range) simp_all
  then show ?thesis by (simp add: articleId_of_eq)
qed

lemma scenario_A:
  "handleContent (scenario_env True [\<lparr>Name = [], Address = ''alice''\<rparr>] [] True) scenario_key
      (scenario_msg S) ''content'' =
   (Continue,
    [Log DebugLevel ''got address'',
     SendEmail ''priv''
       (''H:'' @ header @ ''[1] Front line update'' @ [LF, LF] @ ''[2] Ceasefire talks'' @ [LF, LF] @ footer)
       ''war-info'' (reply_addressee S),
     Log InfoLevel ''message sent''])"
proof -
  have s: "sendDigest (scenario_env True [\<lparr>Name = [], Address = ''alice''\<rparr>] [] True) scenario_key
      (scenario_msg S) ''alice'' =
    [SendEmail ''priv''
       (''H:'' @ header @ ''[1] Front line update'' @ [LF, LF] @ ''[2] Ceasefire talks'' @ [LF, LF] @ footer)
       ''war-info'' (reply_addressee S),
     Log InfoLevel ''message sent'']"
    unfolding sendDigest_def scenario_CreateTextEmail
    by (simp add: digestEmail_def digestBody_eq headline_line_def FormatInt_1 FormatInt_2
        scenario_env_def scenario_key_def scenario_msg_def reply_addressee_def)
  show ?thesis
    unfolding handleContent_parsed [OF scenario_parsed] s
    by (simp add: articleId_of_Nil)
qed

lemma scenario_B:
  "handleContent (scenario_env True [\<lparr>Name = [], Address = ''alice''\<rparr>] ''2'' True) scenario_key
      (scenario_msg S) ''content'' =
   (Continue,
    [Log DebugLevel ''got address'', Log DebugLevel ''getting article'',
     SendEmail ''priv'' (''H:'' @ ''Full article text'') ''war-info'' (reply_addressee S),
     Log InfoLevel ''message sent''])"
proof -
  have s: "sendArticle (scenario_env True [\<lparr>Name = [], Address = ''alice''\<rparr>] ''2'' True)
      ''Full article text'' ''Ceasefire talks'' ''alice'' ''war-info'' S ''priv'' =
    (None, [SendEmail ''priv'' (''H:'' @ ''Full article text'') ''war-info'' (reply_addressee S),
     Log InfoLevel ''message sent''])"
    unfolding sendArticle_def scenario_CreateTextEmail
    by (simp add: articleEmail_def scenario_env_def reply_addressee_def)
  have g: "cache_GetArticle (scenario_env True [\<lparr>Name = [], Address = ''alice''\<rparr>] ''2'' True) 2
      = Inr (''Ceasefire talks'', ''Full article text'')"
    by (simp add: scenario_env_def)
  have r: "requestArticle (scenario_env True [\<lparr>Name = [], Address = ''alice''\<rparr>] ''2'' True)
      scenario_key (scenario_msg S) ''alice'' 2 =
    [Log DebugLevel ''getting article'',
     SendEmail ''priv'' (''H:'' @ ''Full article text'') ''war-info'' (reply_addressee S),
     Log InfoLevel ''message sent'']"
    unfolding requestArticle_def
    by (simp add: g s [unfolded scenario_key_def scenario_msg_def] scenario_key_def scenario_msg_def)
  show ?thesis
    unfolding handleContent_parsed [OF scenario_parsed] articleId_of_2 r by simp
qed

lemma pollKeys_Break:
  assumes "drain key results = (Break, evs)"
  shows "pollKeys ((key, results) # others) = (fst (pollKeys others), evs @ snd (pollKeys others))"
  using assms by (simp split: prod.splits)

lemma pollKeys_stop:
  assumes "drain key results = (c, evs)" "c \<noteq> Break"
  shows "pollKeys ((key, results) # others) = (c, evs)"
  using assms by (cases c) simp_all

lemma scenario_skip:
  "handleReceive (scenario_env False [] [] True) scenario_key (Inr \<lparr>Message = Some (scenario_msg ''alice'')\<rparr>)
     = (Continue, [Log ErrorLevel ''failed to read message''])"
  unfolding decrypted_handleReceive [OF scenario_decrypted]
  by (simp add: handleContent_def scenario_env_def)

text \<open>
  Scenario C of the specification: the subject is \<open>99\<close> and the cache holds no article 99;
  the failed lookup is logged and nothing is sent.
\<close>

lemma scenario_C:
  "handleContent (scenario_env True [\<lparr>Name = [], Address = ''alice''\<rparr>] ''99'' True) scenario_key
      (scenario_msg S) ''content'' =
   (Continue,
    [Log DebugLevel ''got address'', Log DebugLevel ''getting article'',
     Log ErrorLevel ''error retrieving article''])"
proof -
  have r: "requestArticle (scenario_env True [\<lparr>Name = [], Address = ''alice''\<rparr>] ''99'' True)
      scenario_key (scenario_msg S) ''alice'' 99 =
    [Log DebugLevel ''getting article'', Log ErrorLevel ''error retrieving article'']"
    by (simp add: requestArticle_def scenario_env_def)
  show ?thesis
    unfolding handleContent_parsed [OF scenario_parsed] articleId_of_99 r by simp
qed

subsection \<open>The composed document and the format of a number\<close>

lemma CreateTextEmail_no_Cc:
  assumes "Cc email = None"
  shows "CreateTextEmail env email =
     (case CreateSingleInlineWriter env
             [DateField (Date email),
              TextField ''Content-Language'' ''ru'',
              TextField ''Content-Type'' ''text/plain; charset=utf-8; format=flowed'',
              AddressListField ''From'' [From email],
              AddressListField ''To'' (To email),
              SubjectField (Subject email)] of
        Inl err \<Rightarrow> Inl err
      | Inr b \<Rightarrow>
          (case writer_Write env b (Body email) of
             Inl err \<Rightarrow> Inl err
           | Inr b' \<Rightarrow> Inr (writer_Close env b')))"
  using assms by (simp add: CreateTextEmail_def Let_def)

lemma digits_from_snoc:
  "digits_from m (xs @ [c]) = 10 * digits_from m xs + (of_char c - 48)"
  by (simp add: digits_from_def)

lemma of_char_digit: "(d::nat) < 10 \<Longrightarrow> (of_char (char_of (48 + d)) :: nat) = 48 + d"
  by simp

lemma is_digit_char_of: "(d::nat) < 10 \<Longrightarrow> is_digit (char_of (48 + d))"
  by (simp add: is_digit_def)

lemma nat_digits_not_Nil: "nat_digits n \<noteq> []"
  by (subst nat_digits.simps) simp

lemma nat_digits_all: "list_all is_digit (nat_digits n)"
proof (induction n rule: nat_digits.induct)
  case (1 n)
  show ?case
  proof (cases "n < 10")
    case True
    then show ?thesis by (subst nat_digits.simps) (simp add: is_digit_char_of)
  next
    case False
    have "n mod 10 < 10" by simp
    then have "is_digit (char_of (48 + n mod 10))" by (rule is_digit_char_of)
    with False 1 show ?thesis by (subst nat_digits.simps) simp
  qed
qed

lemma digits_value_nat_digits: "digits_value (nat_digits n) = n"
proof (induction n rule: nat_digits.induct)
  case (1 n)
  show ?case
  proof (cases "n < 10")
    case True
    then show ?thesis
      by (subst nat_digits.simps) (simp add: digits_value_def digits_from_def)
  next
    case False
    with 1 have IH: "digits_from 0 (nat_digits (n div 10)) = n div 10"
      by (simp add: digits_value_def)
    have m: "n mod 10 < 10" by simp
    have "digits_value (nat_digits n) =
        10 * digits_from 0 (nat_digits (n div 10)) + (of_char (char_of (48 + n mod 10)) - 48)"
      using False by (subst nat_digits.simps) (simp add: digits_value_def digits_from_snoc)
    also have "\<dots> = 10 * (n div 10) + n mod 10"
      unfolding IH of_char_digit [OF m] by simp
    finally show ?thesis by simp
  qed
qed

lemma hd_nat_digits: "0 < n \<Longrightarrow> hd (nat_digits n) \<noteq> CHR ''0''"
proof (induction n rule: nat_digits.induct)
  case (1 n)
  show ?case
  proof (cases "n < 10")
    case True
    have "(of_char (char_of (48 + n)) :: nat) \<noteq> of_char CHR ''0''"
      using True 1(2) by simp
    then have "char_of (48 + n) \<noteq> CHR ''0''" by metis
    with True show ?thesis by (subst nat_digits.simps) simp
  next
    case False
    then have "0 < n div 10" by simp
    with False 1 have "hd (nat_digits (n div 10)) \<noteq> CHR ''0''" by simp
    with False show ?thesis
      by (subst nat_digits.simps) (simp add: nat_digits_not_Nil)
  qed
qed

lemma hd_nat_digits_digit: "is_digit (hd (nat_digits n))"
  using nat_digits_all [of n] nat_digits_not_Nil [of n]
  by (cases "nat_digits n") simp_all

lemma is_digit_not_sign: "is_digit c \<Longrightarrow> c \<noteq> CHR ''+'' \<and> c \<noteq> CHR ''-''"
  by (auto simp: is_digit_def)

lemma unsigned_part_nat_digits: "unsigned_part (nat_digits n) = nat_digits n"
proof -
  obtain c cs where d: "nat_digits n = c # cs"
    using nat_digits_not_Nil [of n] by (cases "nat_digits n") auto
  have "is_digit c" using hd_nat_digits_digit [of n] d by simp
  then have "c \<noteq> CHR ''+'' \<and> c \<noteq> CHR ''-''" by (rule is_digit_not_sign)
  then show ?thesis unfolding d by (simp add: unsigned_part_def)
qed

lemma is_negative_nat_digits: "\<not> is_negative (nat_digits n)"
proof -
  obtain c cs where d: "nat_digits n = c # cs"
    using nat_digits_not_Nil [of n] by (cases "nat_digits n") auto
  have "is_digit c" using hd_nat_digits_digit [of n] d by simp
  then have "c \<noteq> CHR ''+'' \<and> c \<noteq> CHR ''-''" by (rule is_digit_not_sign)
  then show ?thesis unfolding d by (simp add: is_negative_def)
qed

lemma parse_decimal_nat_digits: "parse_decimal (nat_digits n) = Some (int n)"
  unfolding parse_decimal_def unsigned_part_nat_digits
  using nat_digits_not_Nil [of n] nat_digits_all [of n] is_negative_nat_digits [of n]
  by (simp add: digits_value_nat_digits)

lemma parse_decimal_minus_nat_digits: "parse_decimal (CHR ''-'' # nat_digits n) = Some (- int n)"
proof -
  have u: "unsigned_part (CHR ''-'' # nat_digits n) = nat_digits n"
    by (simp add: unsigned_part_def)
  have g: "is_negative (CHR ''-'' # nat_digits n)"
    by (simp add: is_negative_def)
  show ?thesis
    unfolding parse_decimal_def u
    using nat_digits_not_Nil [of n] nat_digits_all [of n] g
    by (simp add: digits_value_nat_digits)
qed

lemma parse_decimal_FormatInt: "parse_decimal (FormatInt i) = Some i"
proof (cases "i < 0")
  case True
  then have "FormatInt i = CHR ''-'' # nat_digits (nat (- i))" by (simp add: FormatInt_def)
  then show ?thesis using True by (simp add: parse_decimal_minus_nat_digits)
next
  case False
  then have "FormatInt i = nat_digits (nat i)" by (simp add: FormatInt_def)
  then show ?thesis using False by (simp add: parse_decimal_nat_digits)
qed

lemma FormatInt_no_leading_zero:
  assumes "i \<noteq> 0"
  shows "hd (unsigned_part (FormatInt i)) \<noteq> CHR ''0''"
proof (cases "i < 0")
  case True
  then have "unsigned_part (FormatInt i) = nat_digits (nat (- i))"
    by (simp add: FormatInt_def unsigned_part_def)
  moreover have "0 < nat (- i)" using True by simp
  ultimately show ?thesis by (simp add: hd_nat_digits)
next
  case False
  then have "unsigned_part (FormatInt i) = nat_digits (nat i)"
    by (simp add: FormatInt_def unsigned_part_nat_digits)
  moreover have "0 < nat i" using False assms by simp
  ultimately show ?thesis by (simp add: hd_nat_digits)
qed

lemma FormatInt_0: "FormatInt 0 = ''0''"
  by (simp add: FormatInt_def nat_digits.simps [of 0] char_of_eq_iff)

lemma FormatInt_no_plus: "hd (FormatInt i) \<noteq> CHR ''+''"
proof (cases "i < 0")
  case True
  then show ?thesis by (simp add: FormatInt_def)
next
  case False
  have "is_digit (hd (nat_digits (nat i)))" by (rule hd_nat_digits_digit)
  then have "hd (nat_digits (nat i)) \<noteq> CHR ''+''" using is_digit_not_sign by blast
  with False show ?thesis by (simp add: FormatInt_def)
qed

lemma rendering_parsed: "parsed (rendering_env subj) content = Some (''alice'', subj)"
  by (simp add: parsed_def rendering_env_def scenario_env_def)

lemma rendering_fields:
  "cache_GetHeadlines (rendering_env subj) =
     [\<lparr>ID = 1, Title = ''Front line update''\<rparr>, \<lparr>ID = 2, Title = ''Ceasefire talks''\<rparr>]"
  "cache_GetArticle (rendering_env subj) 2 = Inr (''Ceasefire talks'', ''Full article text'')"
  "CreateSingleInlineWriter (rendering_env subj) h = Inr (concat (map render_field h))"
  "writer_Write (rendering_env subj) b body = Inr (b @ body)"
  "writer_Close (rendering_env subj) b = b"
  "time_Now (rendering_env subj) = 0"
  by (simp_all add: rendering_env_def scenario_env_def)

lemma polling_key_fields:
  "PrivateKey polling_key = ''priv''" "UbikomName polling_key = ''news-bot''"
  by (simp_all add: polling_key_def)

subsection \<open>The claims about the poll loop\<close>

text \<open>
  Claim C5. Every reply that an iteration sends for a message of sender \<open>S\<close> is addressed
  to \<open>S\<close> when \<open>S\<close> is not \<open>gateway\<close>, and to \<open>gateway\<close> when it is. The digest path sends
  exactly one reply, addressed by this rule, and so does \<open>sendArticle\<close> whenever it returns
  nil: the rule is the same on both paths.
\<close>

theorem reply_routing:
  "(\<forall>pk b n R. SendEmail pk b n R \<in> set (snd (handleContent env key msg content)) \<longrightarrow>
       (Sender msg \<noteq> ''gateway'' \<longrightarrow> R = Sender msg) \<and> (Sender msg = ''gateway'' \<longrightarrow> R = ''gateway''))
   \<and> (\<exists>b. replies (sendDigest env key msg to) =
         [SendEmail (PrivateKey key) b (UbikomName key)
            (if Sender msg \<noteq> ''gateway'' then Sender msg else ''gateway'')])
   \<and> (fst (sendArticle env text headline to name S pk) = None \<longrightarrow>
        (\<exists>b. replies (snd (sendArticle env text headline to name S pk)) =
           [SendEmail pk b name (if S \<noteq> ''gateway'' then S else ''gateway'')]))"
proof -
  have a: "\<forall>pk b n R. SendEmail pk b n R \<in> set (snd (handleContent env key msg content)) \<longrightarrow>
       (Sender msg \<noteq> ''gateway'' \<longrightarrow> R = Sender msg) \<and> (Sender msg = ''gateway'' \<longrightarrow> R = ''gateway'')"
    using replies_handleContent_receiver [of _ _ _ _ env key msg content]
    by (auto simp: reply_addressee_def)
  have b: "\<exists>b. replies (sendDigest env key msg to) =
         [SendEmail (PrivateKey key) b (UbikomName key)
            (if Sender msg \<noteq> ''gateway'' then Sender msg else ''gateway'')]"
    by (simp add: replies_sendDigest reply_addressee_def)
  have c: "fst (sendArticle env text headline to name S pk) = None \<longrightarrow>
        (\<exists>b. replies (snd (sendArticle env text headline to name S pk)) =
           [SendEmail pk b name (if S \<noteq> ''gateway'' then S else ''gateway'')])"
    by (auto simp: replies_sendArticle fst_sendArticle reply_addressee_def split: sum.splits)
  from a b c show ?thesis by blast
qed

text \<open>
  Scenario B from the senders \<open>alice\<close> and \<open>gateway\<close>: the article goes to \<open>alice\<close> and
  to \<open>gateway\<close>; the digest and \<open>sendArticle\<close> on their own likewise.
\<close>

theorem reply_routing_witness:
  "SendEmail ''priv'' (''H:'' @ ''Full article text'') ''war-info'' ''alice''
     \<in> set (snd (handleContent (scenario_env True [\<lparr>Name = [], Address = ''alice''\<rparr>] ''2'' True)
          scenario_key (scenario_msg ''alice'') ''content''))
   \<and> Sender (scenario_msg ''alice'') = ''alice''
   \<and> SendEmail ''priv'' (''H:'' @ ''Full article text'') ''war-info'' ''gateway''
     \<in> set (snd (handleContent (scenario_env True [\<lparr>Name = [], Address = ''alice''\<rparr>] ''2'' True)
          scenario_key (scenario_msg ''gateway'') ''content''))
   \<and> Sender (scenario_msg ''gateway'') = ''gateway''
   \<and> replies (sendDigest (scenario_env True [\<lparr>Name = [], Address = ''alice''\<rparr>] ''2'' True)
        scenario_key (scenario_msg ''alice'') ''alice'')
      = [SendEmail ''priv''
          (''H:'' @ header @ ''[1] Front line update'' @ [LF, LF] @ ''[2] Ceasefire talks'' @ [LF, LF] @ footer)
          ''war-info'' ''alice'']
   \<and> fst (sendArticle (scenario_env True [\<lparr>Name = [], Address = ''alice''\<rparr>] ''2'' True)
          ''text'' ''headline'' ''alice'' ''war-info'' ''gateway'' ''priv'') = None
   \<and> replies (snd (sendArticle (scenario_env True [\<lparr>Name = [], Address = ''alice''\<rparr>] ''2'' True)
          ''text'' ''headline'' ''alice'' ''war-info'' ''gateway'' ''priv''))
      = [SendEmail ''priv'' (''H:'' @ ''text'') ''war-info'' ''gateway'']"
proof -
  let ?env = "scenario_env True [\<lparr>Name = [], Address = ''alice''\<rparr>] ''2'' True"
  have d: "replies (sendDigest ?env scenario_key (scenario_msg ''alice'') ''alice'')
      = [SendEmail ''priv''
          (''H:'' @ header @ ''[1] Front line update'' @ [LF, LF] @ ''[2] Ceasefire talks'' @ [LF, LF] @ footer)
          ''war-info'' ''alice'']"
    unfolding replies_sendDigest scenario_CreateTextEmail
    by (simp add: digestEmail_def digestBody_eq headline_line_def FormatInt_1 FormatInt_2
        scenario_env_def scenario_key_def scenario_msg_def reply_addressee_def)
  have f: "fst (sendArticle ?env ''text'' ''headline'' ''alice'' ''war-info'' ''gateway'' ''priv'') = None"
    unfolding fst_sendArticle scenario_CreateTextEmail by simp
  have r: "replies (snd (sendArticle ?env ''text'' ''headline'' ''alice'' ''war-info'' ''gateway'' ''priv''))
      = [SendEmail ''priv'' (''H:'' @ ''text'') ''war-info'' ''gateway'']"
    unfolding replies_sendArticle scenario_CreateTextEmail
    by (simp add: articleEmail_def reply_addressee_def)
  have m1: "SendEmail ''priv'' (''H:'' @ ''Full article text'') ''war-info'' ''alice''
     \<in> set (snd (handleContent ?env scenario_key (scenario_msg ''alice'') ''content''))"
    by (simp add: scenario_B reply_addressee_def)
  have m2: "SendEmail ''priv'' (''H:'' @ ''Full article text'') ''war-info'' ''gateway''
     \<in> set (snd (handleContent ?env scenario_key (scenario_msg ''gateway'') ''content''))"
    by (simp add: scenario_B reply_addressee_def)
  have s1: "Sender (scenario_msg ''alice'') = ''alice''"
    and s2: "Sender (scenario_msg ''gateway'') = ''gateway''"
    by (simp_all add: scenario_msg_def)
  show ?thesis
    using reply_routing [of ?env scenario_key "scenario_msg ''alice''" "''content''" "''alice''"
        "''text''" "''headline''" "''war-info''" "''gateway''" "''priv''"]
      reply_routing [of ?env scenario_key "scenario_msg ''gateway''" "''content''" "''alice''"
        "''text''" "''headline''" "''war-info''" "''alice''" "''priv''"]
      m1 m2 s1 s2 d f r
    by blast
qed

text \<open>
  Claim C6. The body of the digest reply is the header block, then one segment
  \<open>[id] title\<close> followed by two line feeds for each headline of the cache, in the order of
  the cache, then the footer block; the id is written in decimal, as \<open>%d\<close> does (the
  string parses back to the id, has no plus sign and no leading zero). Its subject is the
  fixed digest subject, its \<open>From\<close> address is the name of the polling key followed by
  \<open>@ubikom.cc\<close>, and it goes to the address of the request. \<open>CreateTextEmail\<close> hands the
  writer exactly these header fields and this body, and when the subject of the parsed
  request gives the intent \<open>Digest\<close> the iteration sends what the writer returns (no bytes,
  if the writer fails).
\<close>

theorem digest_reply:
  "Body (digestEmail env key to) =
      header @
      concat (map (\<lambda>h. ''['' @ FormatInt (ID h) @ ''] '' @ Title h @ [LF, LF]) (cache_GetHeadlines env)) @
      footer
   \<and> Subject (digestEmail env key to) = headlinesSubject
   \<and> Address (From (digestEmail env key to)) = UbikomName key @ ''@ubikom.cc''
   \<and> map Address (To (digestEmail env key to)) = [to]
   \<and> CreateTextEmail env (digestEmail env key to) =
       (case CreateSingleInlineWriter env
               [DateField (time_Now env),
                TextField ''Content-Language'' ''ru'',
                TextField ''Content-Type'' ''text/plain; charset=utf-8; format=flowed'',
                AddressListField ''From'' [\<lparr>Name = [], Address = UbikomName key @ ''@ubikom.cc''\<rparr>],
                AddressListField ''To'' [\<lparr>Name = [], Address = to\<rparr>],
                SubjectField headlinesSubject] of
          Inl err \<Rightarrow> Inl err
        | Inr b \<Rightarrow>
            (case writer_Write env b
                    (header @
                     concat (map (\<lambda>h. ''['' @ FormatInt (ID h) @ ''] '' @ Title h @ [LF, LF])
                               (cache_GetHeadlines env)) @
                     footer) of
               Inl err \<Rightarrow> Inl err
             | Inr b' \<Rightarrow> Inr (writer_Close env b')))
   \<and> (parsed env content = Some (to, subj) \<and> derive_intent subj = Digest \<longrightarrow>
        replies (snd (handleContent env key msg content)) =
          [SendEmail (PrivateKey key)
             (case CreateSingleInlineWriter env
                     [DateField (time_Now env),
                      TextField ''Content-Language'' ''ru'',
                      TextField ''Content-Type'' ''text/plain; charset=utf-8; format=flowed'',
                      AddressListField ''From'' [\<lparr>Name = [], Address = UbikomName key @ ''@ubikom.cc''\<rparr>],
                      AddressListField ''To'' [\<lparr>Name = [], Address = to\<rparr>],
                      SubjectField headlinesSubject] of
                Inl err \<Rightarrow> []
              | Inr b \<Rightarrow>
                  (case writer_Write env b
                          (header @
                           concat (map (\<lambda>h. ''['' @ FormatInt (ID h) @ ''] '' @ Title h @ [LF, LF])
                                     (cache_GetHeadlines env)) @
                           footer) of
                     Inl err \<Rightarrow> []
                   | Inr b' \<Rightarrow> writer_Close env b'))
             (UbikomName key) (reply_addressee (Sender msg))])
   \<and> parse_decimal (FormatInt i) = Some i
   \<and> hd (FormatInt i) \<noteq> CHR ''+''
   \<and> (i \<noteq> 0 \<longrightarrow> hd (unsigned_part (FormatInt i)) \<noteq> CHR ''0'')
   \<and> FormatInt 0 = ''0''"
proof -
  let ?body = "header @
      concat (map (\<lambda>h. ''['' @ FormatInt (ID h) @ ''] '' @ Title h @ [LF, LF]) (cache_GetHeadlines env)) @
      footer"
  let ?hdr = "[DateField (time_Now env),
                TextField ''Content-Language'' ''ru'',
                TextField ''Content-Type'' ''text/plain; charset=utf-8; format=flowed'',
                AddressListField ''From'' [\<lparr>Name = [], Address = UbikomName key @ ''@ubikom.cc''\<rparr>],
                AddressListField ''To'' [\<lparr>Name = [], Address = to\<rparr>],
                SubjectField headlinesSubject]"
  have b: "Body (digestEmail env key to) = ?body"
    by (simp add: digestEmail_def digestBody_eq headline_line_def [abs_def])
  have s: "Subject (digestEmail env key to) = headlinesSubject"
    by (simp add: digestEmail_def)
  have f: "Address (From (digestEmail env key to)) = UbikomName key @ ''@ubikom.cc''"
    by (simp add: digestEmail_def)
  have t: "map Address (To (digestEmail env key to)) = [to]"
    by (simp add: digestEmail_def)
  have cc: "Cc (digestEmail env key to) = None"
    by (simp add: digestEmail_def)
  have c: "CreateTextEmail env (digestEmail env key to) =
       (case CreateSingleInlineWriter env ?hdr of
          Inl err \<Rightarrow> Inl err
        | Inr b \<Rightarrow>
            (case writer_Write env b ?body of
               Inl err \<Rightarrow> Inl err
             | Inr b' \<Rightarrow> Inr (writer_Close env b')))"
    unfolding CreateTextEmail_no_Cc [OF cc] b
    by (simp add: digestEmail_def)
  have p: "parsed env content = Some (to, subj) \<and> derive_intent subj = Digest \<longrightarrow>
        replies (snd (handleContent env key msg content)) =
          [SendEmail (PrivateKey key)
             (case CreateSingleInlineWriter env ?hdr of
                Inl err \<Rightarrow> []
              | Inr b \<Rightarrow>
                  (case writer_Write env b ?body of
                     Inl err \<Rightarrow> []
                   | Inr b' \<Rightarrow> writer_Close env b'))
             (UbikomName key) (reply_addressee (Sender msg))]"
    unfolding replies_handleContent
    by (auto simp: derive_intent_Digest_iff replies_sendDigest c split: sum.splits)
  have d1: "parse_decimal (FormatInt i) = Some i" by (rule parse_decimal_FormatInt)
  have d2: "hd (FormatInt i) \<noteq> CHR ''+''" by (rule FormatInt_no_plus)
  have d3: "i \<noteq> 0 \<longrightarrow> hd (unsigned_part (FormatInt i)) \<noteq> CHR ''0''"
    using FormatInt_no_leading_zero by blast
  have d4: "FormatInt 0 = ''0''" by (rule FormatInt_0)
  from b s f t c p d1 d2 d3 d4 show ?thesis by blast
qed

text \<open>
  Scenario A of the specification, polled by the key \<open>news-bot\<close> with a writer that shows
  the header it receives: the cache holds the headlines 1 and 2, the subject is empty and
  the sender is \<open>alice\<close>.
\<close>

theorem digest_reply_witness:
  "parsed (rendering_env []) ''content'' = Some (''alice'', [])
   \<and> derive_intent [] = Digest
   \<and> replies (snd (handleContent (rendering_env []) polling_key (scenario_msg ''alice'') ''content'')) =
      [SendEmail ''priv''
         (''Date;Content-Language: ru;Content-Type: text/plain; charset=utf-8; format=flowed;''
          @ ''From: news-bot@ubikom.cc;To: alice;Subject: '' @ headlinesSubject @ '';''
          @ header @ ''[1] Front line update'' @ [LF, LF] @ ''[2] Ceasefire talks'' @ [LF, LF] @ footer)
         ''news-bot'' ''alice'']
   \<and> parse_decimal (FormatInt (- 1234)) = Some (- 1234)
   \<and> hd (unsigned_part (FormatInt (- 1234))) \<noteq> CHR ''0''"
proof -
  have p: "parsed (rendering_env []) ''content'' = Some (''alice'', [])" by (rule rendering_parsed)
  have i: "derive_intent [] = Digest" by (simp add: derive_intent_def articleId_of_Nil)
  have s: "Sender (scenario_msg ''alice'') = ''alice''" by (simp add: scenario_msg_def)
  note t = digest_reply [of "rendering_env []" polling_key "''alice''" "''content''" "[]"
      "scenario_msg ''alice''" "- 1234"]
  have r: "replies (snd (handleContent (rendering_env []) polling_key (scenario_msg ''alice'') ''content'')) =
      [SendEmail ''priv''
         (''Date;Content-Language: ru;Content-Type: text/plain; charset=utf-8; format=flowed;''
          @ ''From: news-bot@ubikom.cc;To: alice;Subject: '' @ headlinesSubject @ '';''
          @ header @ ''[1] Front line update'' @ [LF, LF] @ ''[2] Ceasefire talks'' @ [LF, LF] @ footer)
         ''news-bot'' ''alice'']"
    using t p i
    by (simp add: rendering_fields polling_key_fields s reply_addressee_def FormatInt_1 FormatInt_2)
  have d: "parse_decimal (FormatInt (- 1234)) = Some (- 1234)"
    "hd (unsigned_part (FormatInt (- 1234))) \<noteq> CHR ''0''"
    using t by simp_all
  from p i r d show ?thesis by blast
qed

text \<open>
  Claim C7. The reply to a request for an article that the cache holds has the headline of
  the article as its subject and the full text as its body; its \<open>From\<close> entry is the fixed
  one, \<open>war-info@ubikom.cc\<close>, whatever the polling key is. \<open>CreateTextEmail\<close> hands the
  writer exactly these header fields and this body. When the subject of the parsed request
  gives the intent \<open>ArticleRequest n\<close> and the cache returns the article \<open>n\<close>, the iteration
  sends what the writer returns, and nothing if the writer fails.
\<close>

theorem article_reply:
  "Subject (articleEmail env text headline to) = headline
   \<and> Body (articleEmail env text headline to) = text
   \<and> From (articleEmail env text headline to) =
       \<lparr>Name = ''Ubikom War Info'', Address = ''war-info@ubikom.cc''\<rparr>
   \<and> map Address (To (articleEmail env text headline to)) = [to]
   \<and> CreateTextEmail env (articleEmail env text headline to) =
       (case CreateSingleInlineWriter env
               [DateField (time_Now env),
                TextField ''Content-Language'' ''ru'',
                TextField ''Content-Type'' ''text/plain; charset=utf-8; format=flowed'',
                AddressListField ''From'' [\<lparr>Name = ''Ubikom War Info'', Address = ''war-info@ubikom.cc''\<rparr>],
                AddressListField ''To'' [\<lparr>Name = [], Address = to\<rparr>],
                SubjectField headline] of
          Inl err \<Rightarrow> Inl err
        | Inr b \<Rightarrow>
            (case writer_Write env b text of
               Inl err \<Rightarrow> Inl err
             | Inr b' \<Rightarrow> Inr (writer_Close env b')))
   \<and> (parsed env content = Some (to, subj) \<and> derive_intent subj = ArticleRequest n
        \<and> cache_GetArticle env n = Inr (headline, text) \<longrightarrow>
        replies (snd (handleContent env key msg content)) =
          (case CreateSingleInlineWriter env
                  [DateField (time_Now env),
                   TextField ''Content-Language'' ''ru'',
                   TextField ''Content-Type'' ''text/plain; charset=utf-8; format=flowed'',
                   AddressListField ''From'' [\<lparr>Name = ''Ubikom War Info'', Address = ''war-info@ubikom.cc''\<rparr>],
                   AddressListField ''To'' [\<lparr>Name = [], Address = to\<rparr>],
                   SubjectField headline] of
             Inl err \<Rightarrow> []
           | Inr b \<Rightarrow>
               (case writer_Write env b text of
                  Inl err \<Rightarrow> []
                | Inr b' \<Rightarrow>
                    [SendEmail (PrivateKey key) (writer_Close env b') (UbikomName key)
                       (reply_addressee (Sender msg))])))"
proof -
  let ?hdr = "[DateField (time_Now env),
                TextField ''Content-Language'' ''ru'',
                TextField ''Content-Type'' ''text/plain; charset=utf-8; format=flowed'',
                AddressListField ''From'' [\<lparr>Name = ''Ubikom War Info'', Address = ''war-info@ubikom.cc''\<rparr>],
                AddressListField ''To'' [\<lparr>Name = [], Address = to\<rparr>],
                SubjectField headline]"
  have cc: "Cc (articleEmail env text headline to) = None"
    by (simp add: articleEmail_def)
  have bd: "Body (articleEmail env text headline to) = text"
    by (simp add: articleEmail_def)
  have c: "CreateTextEmail env (articleEmail env text headline to) =
       (case CreateSingleInlineWriter env ?hdr of
          Inl err \<Rightarrow> Inl err
        | Inr b \<Rightarrow>
            (case writer_Write env b text of
               Inl err \<Rightarrow> Inl err
             | Inr b' \<Rightarrow> Inr (writer_Close env b')))"
    unfolding CreateTextEmail_no_Cc [OF cc] bd
    by (simp add: articleEmail_def)
  have p: "parsed env content = Some (to, subj) \<and> derive_intent subj = ArticleRequest n
        \<and> cache_GetArticle env n = Inr (headline, text) \<longrightarrow>
        replies (snd (handleContent env key msg content)) =
          (case CreateSingleInlineWriter env ?hdr of
             Inl err \<Rightarrow> []
           | Inr b \<Rightarrow>
               (case writer_Write env b text of
                  Inl err \<Rightarrow> []
                | Inr b' \<Rightarrow>
                    [SendEmail (PrivateKey key) (writer_Close env b') (UbikomName key)
                       (reply_addressee (Sender msg))]))"
    unfolding replies_handleContent
    by (auto simp: derive_intent_ArticleRequest_iff replies_requestArticle replies_sendArticle c
        split: sum.splits)
  have r: "Subject (articleEmail env text headline to) = headline
   \<and> Body (articleEmail env text headline to) = text
   \<and> From (articleEmail env text headline to) =
       \<lparr>Name = ''Ubikom War Info'', Address = ''war-info@ubikom.cc''\<rparr>
   \<and> map Address (To (articleEmail env text headline to)) = [to]"
    by (simp add: articleEmail_def)
  from r c p show ?thesis by blast
qed

text \<open>
  Scenario B of the specification, polled by the key \<open>news-bot\<close>: the subject is \<open>2\<close> and
  the cache holds the article 2. The document that is sent carries the fixed \<open>From\<close>
  address, not the name of the polling key.
\<close>

theorem article_reply_witness:
  "parsed (rendering_env ''2'') ''content'' = Some (''alice'', ''2'')
   \<and> derive_intent ''2'' = ArticleRequest 2
   \<and> cache_GetArticle (rendering_env ''2'') 2 = Inr (''Ceasefire talks'', ''Full article text'')
   \<and> UbikomName polling_key = ''news-bot''
   \<and> replies (snd (handleContent (rendering_env ''2'') polling_key (scenario_msg ''alice'') ''content'')) =
      [SendEmail ''priv''
         (''Date;Content-Language: ru;Content-Type: text/plain; charset=utf-8; format=flowed;''
          @ ''From: war-info@ubikom.cc;To: alice;Subject: Ceasefire talks;''
          @ ''Full article text'')
         ''news-bot'' ''alice'']"
proof -
  have p: "parsed (rendering_env ''2'') ''content'' = Some (''alice'', ''2'')" by (rule rendering_parsed)
  have i: "derive_intent ''2'' = ArticleRequest 2" by (simp add: derive_intent_def articleId_of_2)
  have g: "cache_GetArticle (rendering_env ''2'') 2 = Inr (''Ceasefire talks'', ''Full article text'')"
    by (rule rendering_fields)
  have s: "Sender (scenario_msg ''alice'') = ''alice''" by (simp add: scenario_msg_def)
  note t = article_reply [of "rendering_env ''2''" "''Full article text''" "''Ceasefire talks''"
      "''alice''" "''content''" "''2''" 2 polling_key "scenario_msg ''alice''"]
  have r: "replies (snd (handleContent (rendering_env ''2'') polling_key (scenario_msg ''alice'') ''content'')) =
      [SendEmail ''priv''
         (''Date;Content-Language: ru;Content-Type: text/plain; charset=utf-8; format=flowed;''
          @ ''From: war-info@ubikom.cc;To: alice;Subject: Ceasefire talks;''
          @ ''Full article text'')
         ''news-bot'' ''alice'']"
    using t p i g
    by (simp add: rendering_fields polling_key_fields s reply_addressee_def)
  from p i g r show ?thesis by (simp add: polling_key_fields)
qed

text \<open>
  Claim C8. A result of \<open>Receive\<close> with the status \<open>NotFound\<close> ends the loop of the key by
  \<open>break\<close>: no event is recorded for it, the results that would follow are not asked for,
  and the round goes on with the next key. Any other error of \<open>Receive\<close>, a status with
  another code or an error that is no status, ends the process by \<open>log.Fatal\<close>: the loop of
  the key and the round over the keys stop there.
\<close>

theorem receive_failure:
  "handleReceive env key (Inl (GRPCStatus NotFound m)) = (Break, [])
   \<and> ((\<forall>m'. err \<noteq> GRPCStatus NotFound m') \<longrightarrow>
        handleReceive env key (Inl err) = (Exit, [Log FatalLevel ''error receiving messages'']))
   \<and> (fst (drain key pre) = Continue \<longrightarrow>
        drain key (pre @ (env, Inl (GRPCStatus NotFound m)) # rest) = (Break, snd (drain key pre)))
   \<and> (fst (drain key pre) = Continue \<and> (\<forall>m'. err \<noteq> GRPCStatus NotFound m') \<longrightarrow>
        drain key (pre @ (env, Inl err) # rest) =
          (Exit, snd (drain key pre) @ [Log FatalLevel ''error receiving messages'']))
   \<and> pollKeys ((key, (env, Inl (GRPCStatus NotFound m)) # rest) # others) = pollKeys others
   \<and> ((\<forall>m'. err \<noteq> GRPCStatus NotFound m') \<longrightarrow>
        pollKeys ((key, (env, Inl err) # rest) # others) =
          (Exit, [Log FatalLevel ''error receiving messages'']))"
proof -
  have nf: "handleReceive env key (Inl (GRPCStatus NotFound m)) = (Break, [])"
    by (simp add: handleReceive_error)
  have other: "(\<forall>m'. err \<noteq> GRPCStatus NotFound m') \<longrightarrow>
        handleReceive env key (Inl err) = (Exit, [Log FatalLevel ''error receiving messages''])"
    by (cases err) (auto simp: handleReceive_error)
  have d1: "drain key ((env, Inl (GRPCStatus NotFound m)) # rest) = (Break, [])"
    using nf by (rule drain_Cons_stop) simp
  have d2: "(\<forall>m'. err \<noteq> GRPCStatus NotFound m') \<longrightarrow>
        drain key ((env, Inl err) # rest) = (Exit, [Log FatalLevel ''error receiving messages''])"
    using other drain_Cons_stop [of env key "Inl err" Exit] by simp
  have a1: "fst (drain key pre) = Continue \<longrightarrow>
        drain key (pre @ (env, Inl (GRPCStatus NotFound m)) # rest) = (Break, snd (drain key pre))"
    using drain_append [of key pre "(env, Inl (GRPCStatus NotFound m)) # rest"] d1 by simp
  have a2: "fst (drain key pre) = Continue \<and> (\<forall>m'. err \<noteq> GRPCStatus NotFound m') \<longrightarrow>
        drain key (pre @ (env, Inl err) # rest) =
          (Exit, snd (drain key pre) @ [Log FatalLevel ''error receiving messages''])"
    using drain_append [of key pre "(env, Inl err) # rest"] d2 by simp
  have p1: "pollKeys ((key, (env, Inl (GRPCStatus NotFound m)) # rest) # others) = pollKeys others"
    using pollKeys_Break [OF d1] by simp
  have p2: "(\<forall>m'. err \<noteq> GRPCStatus NotFound m') \<longrightarrow>
        pollKeys ((key, (env, Inl err) # rest) # others) =
          (Exit, [Log FatalLevel ''error receiving messages''])"
    using d2 pollKeys_stop [of key "(env, Inl err) # rest" Exit] by simp
  from nf other a1 a2 p1 p2 show ?thesis by blast
qed

text \<open>
  A status \<open>Unavailable\<close> (code 14) and a plain error are fatal; after one skipped message,
  \<open>NotFound\<close> ends the loop without a further event and a plain error ends the process; in
  a round over three keys, the first is drained and the second ends the process.
\<close>

theorem receive_failure_witness:
  "handleReceive (scenario_env True [] [] True) scenario_key (Inl (GRPCStatus 14 ''unavailable''))
     = (Exit, [Log FatalLevel ''error receiving messages''])
   \<and> handleReceive (scenario_env True [] [] True) scenario_key (Inl (PlainError ''connection reset''))
     = (Exit, [Log FatalLevel ''error receiving messages''])
   \<and> fst (drain scenario_key
        [(scenario_env False [] [] True, Inr \<lparr>Message = Some (scenario_msg ''alice'')\<rparr>)]) = Continue
   \<and> drain scenario_key
        ([(scenario_env False [] [] True, Inr \<lparr>Message = Some (scenario_msg ''alice'')\<rparr>)] @
         (scenario_env True [] [] True, Inl (GRPCStatus NotFound ''no messages'')) #
         [(scenario_env True [] [] True, Inl (PlainError ''connection reset''))])
     = (Break, [Log ErrorLevel ''failed to read message''])
   \<and> drain scenario_key
        ([(scenario_env False [] [] True, Inr \<lparr>Message = Some (scenario_msg ''alice'')\<rparr>)] @
         (scenario_env True [] [] True, Inl (PlainError ''connection reset'')) # [])
     = (Exit, [Log ErrorLevel ''failed to read message'', Log FatalLevel ''error receiving messages''])
   \<and> pollKeys
        [(scenario_key, [(scenario_env True [] [] True, Inl (GRPCStatus NotFound ''no messages''))]),
         (scenario_key, [(scenario_env True [] [] True, Inl (GRPCStatus 14 ''unavailable''))]),
         (scenario_key, [(scenario_env True [] [] True, Inl (GRPCStatus NotFound ''no messages''))])]
     = (Exit, [Log FatalLevel ''error receiving messages''])"
proof -
  let ?ok = "scenario_env True [] [] True" and ?bad = "scenario_env False [] [] True"
  let ?pre = "[(?bad, Inr \<lparr>Message = Some (scenario_msg ''alice'')\<rparr>)]"
  have n1: "\<forall>m'. GRPCStatus 14 ''unavailable'' \<noteq> GRPCStatus NotFound m'"
    by (simp add: NotFound_def)
  have n2: "\<forall>m'. PlainError ''connection reset'' \<noteq> GRPCStatus NotFound m'"
    by simp
  have pre: "drain scenario_key ?pre = (Continue, [Log ErrorLevel ''failed to read message''])"
    by (simp add: scenario_skip)
  note t1 = receive_failure [of ?ok scenario_key "''no messages''" "GRPCStatus 14 ''unavailable''"
      "[]" "[]" "[(scenario_key, [(?ok, Inl (GRPCStatus NotFound ''no messages''))])]"]
  note t2 = receive_failure [of ?ok scenario_key "''no messages''" "PlainError ''connection reset''"
      ?pre "[(?ok, Inl (PlainError ''connection reset''))]" "[]"]
  note t3 = receive_failure [of ?ok scenario_key "''no messages''" "PlainError ''connection reset''"
      ?pre "[]" "[]"]
  note t4 = receive_failure [of ?ok scenario_key "''no messages''" "GRPCStatus 14 ''unavailable''"
      "[]" "[]"
      "[(scenario_key, [(?ok, Inl (GRPCStatus 14 ''unavailable''))]),
        (scenario_key, [(?ok, Inl (GRPCStatus NotFound ''no messages''))])]"]
  have a: "handleReceive ?ok scenario_key (Inl (GRPCStatus 14 ''unavailable''))
     = (Exit, [Log FatalLevel ''error receiving messages''])"
    using t1 n1 by blast
  have b: "handleReceive ?ok scenario_key (Inl (PlainError ''connection reset''))
     = (Exit, [Log FatalLevel ''error receiving messages''])"
    using t2 n2 by blast
  have c: "fst (drain scenario_key ?pre) = Continue"
    unfolding pre by simp
  have d: "drain scenario_key
        (?pre @ (?ok, Inl (GRPCStatus NotFound ''no messages'')) #
         [(?ok, Inl (PlainError ''connection reset''))])
     = (Break, [Log ErrorLevel ''failed to read message''])"
    using t2 c pre by simp
  have e: "drain scenario_key (?pre @ (?ok, Inl (PlainError ''connection reset'')) # [])
     = (Exit, [Log ErrorLevel ''failed to read message'', Log FatalLevel ''error receiving messages''])"
    using t3 c n2 pre by simp
  have f1: "pollKeys
        [(scenario_key, [(?ok, Inl (GRPCStatus NotFound ''no messages''))]),
         (scenario_key, [(?ok, Inl (GRPCStatus 14 ''unavailable''))]),
         (scenario_key, [(?ok, Inl (GRPCStatus NotFound ''no messages''))])]
     = pollKeys [(scenario_key, [(?ok, Inl (GRPCStatus 14 ''unavailable''))]),
         (scenario_key, [(?ok, Inl (GRPCStatus NotFound ''no messages''))])]"
    using t4 by blast
  have f2: "pollKeys [(scenario_key, [(?ok, Inl (GRPCStatus 14 ''unavailable''))]),
         (scenario_key, [(?ok, Inl (GRPCStatus NotFound ''no messages''))])]
     = (Exit, [Log FatalLevel ''error receiving messages''])"
    using t1 n1 by blast
  from a b c d e f1 f2 show ?thesis by simp
qed

text \<open>
  Claim C9. For a decrypted message whose content is a parse failure (the document cannot be
  read, the \<open>From\<close> addresses cannot be read or are not exactly one, or the subject cannot
  be read), the iteration logs one error and ends by \<open>continue\<close>: the process goes on, the
  loop takes up the next result of \<open>Receive\<close>, and no reply is sent.
\<close>

theorem parse_failure_skips:
  assumes "decrypted env key res = Some (msg, content)" and "parse_failure env content"
  shows "\<exists>m. handleReceive env key (Inr res) = (Continue, [Log ErrorLevel m])
           \<and> drain key ((env, Inr res) # rest) = (fst (drain key rest), Log ErrorLevel m # snd (drain key rest))
           \<and> replies (snd (handleReceive env key (Inr res))) = []"
proof -
  from handleContent_failure [OF assms(2)]
  obtain m where m: "handleContent env key msg content = (Continue, [Log ErrorLevel m])" by blast
  have h: "handleReceive env key (Inr res) = (Continue, [Log ErrorLevel m])"
    using decrypted_handleReceive [OF assms(1)] m by simp
  have d: "drain key ((env, Inr res) # rest) = (fst (drain key rest), Log ErrorLevel m # snd (drain key rest))"
    using drain_Cons_Continue [OF h] by simp
  have r: "replies (snd (handleReceive env key (Inr res))) = []"
    by (simp add: h replies_def)
  from h d r show ?thesis by blast
qed

text \<open>
  A document that cannot be read is skipped; no address, two addresses and an unreadable
  subject are parse failures as well, and a single address with a readable subject is not.
\<close>

theorem parse_failure_skips_witness:
  "decrypted (scenario_env False [] [] True) scenario_key \<lparr>Message = Some (scenario_msg ''alice'')\<rparr>
     = Some (scenario_msg ''alice'', ''content'')
   \<and> parse_failure (scenario_env False [] [] True) ''content''
   \<and> (\<exists>m. handleReceive (scenario_env False [] [] True) scenario_key
              (Inr \<lparr>Message = Some (scenario_msg ''alice'')\<rparr>) = (Continue, [Log ErrorLevel m])
          \<and> drain scenario_key
               ((scenario_env False [] [] True, Inr \<lparr>Message = Some (scenario_msg ''alice'')\<rparr>) #
                [(scenario_env True [] [] True, Inl (GRPCStatus NotFound ''no messages''))])
             = (fst (drain scenario_key [(scenario_env True [] [] True, Inl (GRPCStatus NotFound ''no messages''))]),
                Log ErrorLevel m #
                snd (drain scenario_key [(scenario_env True [] [] True, Inl (GRPCStatus NotFound ''no messages''))]))
          \<and> replies (snd (handleReceive (scenario_env False [] [] True) scenario_key
               (Inr \<lparr>Message = Some (scenario_msg ''alice'')\<rparr>))) = [])
   \<and> parse_failure (scenario_env True [] [] True) ''content''
   \<and> parse_failure (scenario_env True [\<lparr>Name = [], Address = ''a''\<rparr>, \<lparr>Name = [], Address = ''b''\<rparr>] [] True)
        ''content''
   \<and> parse_failure
        ((scenario_env True [\<lparr>Name = [], Address = ''a''\<rparr>] [] True)
           \<lparr>header_Subject := (\<lambda>h. Inl (PlainError ''bad subject''))\<rparr>) ''content''
   \<and> \<not> parse_failure (scenario_env True [\<lparr>Name = [], Address = ''a''\<rparr>] [] True) ''content''"
proof -
  have d: "decrypted (scenario_env False [] [] True) scenario_key \<lparr>Message = Some (scenario_msg ''alice'')\<rparr>
     = Some (scenario_msg ''alice'', ''content'')"
    by (rule scenario_decrypted)
  have p: "parse_failure (scenario_env False [] [] True) ''content''"
    by (simp add: parse_failure_def scenario_env_def)
  have p2: "parse_failure (scenario_env True [] [] True) ''content''"
    by (simp add: parse_failure_def scenario_env_def)
  have p3: "parse_failure (scenario_env True [\<lparr>Name = [], Address = ''a''\<rparr>, \<lparr>Name = [], Address = ''b''\<rparr>] [] True)
        ''content''"
    by (simp add: parse_failure_def scenario_env_def)
  have p4: "parse_failure
        ((scenario_env True [\<lparr>Name = [], Address = ''a''\<rparr>] [] True)
           \<lparr>header_Subject := (\<lambda>h. Inl (PlainError ''bad subject''))\<rparr>) ''content''"
    by (simp add: parse_failure_def scenario_env_def)
  have p5: "\<not> parse_failure (scenario_env True [\<lparr>Name = [], Address = ''a''\<rparr>] [] True) ''content''"
    by (simp add: parse_failure_def scenario_env_def)
  from parse_failure_skips [OF d p,
      of "[(scenario_env True [] [] True, Inl (GRPCStatus NotFound ''no messages''))]"]
    d p p2 p3 p4 p5
  show ?thesis by blast
qed

text \<open>
  Claim C10. After the decryption an iteration never ends the process, whatever the
  composition and the send do. \<open>sendArticle\<close> returns an error exactly when the composition
  fails, and then \<open>main\<close> logs it; when the send fails, \<open>sendArticle\<close> logs the failure and
  returns nil. On the digest path a failed composition and a failed send are each logged.
\<close>

theorem outbound_failures_not_fatal:
  "fst (handleContent env key msg content) = Continue
   \<and> fst (sendArticle env text headline to name S pk) =
       (case CreateTextEmail env (articleEmail env text headline to) of
          Inl err \<Rightarrow> Some err
        | Inr b \<Rightarrow> None)
   \<and> (CreateTextEmail env (articleEmail env text headline to) = Inr b
        \<and> protoutil_SendEmail env pk b name (reply_addressee S) = Some err \<longrightarrow>
        sendArticle env text headline to name S pk =
          (None, [SendEmail pk b name (reply_addressee S), Log ErrorLevel ''failed to send response'']))
   \<and> (cache_GetArticle env (sint articleId) = Inr (headline, text)
        \<and> CreateTextEmail env (articleEmail env text headline to) = Inl err \<longrightarrow>
        requestArticle env key msg to articleId =
          [Log DebugLevel ''getting article'', Log ErrorLevel ''error sending the article''])
   \<and> (CreateTextEmail env (digestEmail env key to) = Inl err \<longrightarrow>
        Log ErrorLevel ''failed to create email'' \<in> set (sendDigest env key msg to))
   \<and> (protoutil_SendEmail env (PrivateKey key)
          (case CreateTextEmail env (digestEmail env key to) of Inl err \<Rightarrow> [] | Inr b \<Rightarrow> b)
          (UbikomName key) (reply_addressee (Sender msg)) = Some err \<longrightarrow>
        Log ErrorLevel ''failed to send response'' \<in> set (sendDigest env key msg to))"
proof -
  have a: "fst (handleContent env key msg content) = Continue"
    by (rule handleContent_Continue)
  have b: "fst (sendArticle env text headline to name S pk) =
       (case CreateTextEmail env (articleEmail env text headline to) of
          Inl err \<Rightarrow> Some err
        | Inr b \<Rightarrow> None)"
    by (rule fst_sendArticle)
  have c: "CreateTextEmail env (articleEmail env text headline to) = Inr b
        \<and> protoutil_SendEmail env pk b name (reply_addressee S) = Some err \<longrightarrow>
        sendArticle env text headline to name S pk =
          (None, [SendEmail pk b name (reply_addressee S), Log ErrorLevel ''failed to send response''])"
    by (simp add: sendArticle_def reply_addressee_def Let_def)
  have d: "cache_GetArticle env (sint articleId) = Inr (headline, text)
        \<and> CreateTextEmail env (articleEmail env text headline to) = Inl err \<longrightarrow>
        requestArticle env key msg to articleId =
          [Log DebugLevel ''getting article'', Log ErrorLevel ''error sending the article'']"
    by (simp add: requestArticle_def sendArticle_def)
  have e: "CreateTextEmail env (digestEmail env key to) = Inl err \<longrightarrow>
        Log ErrorLevel ''failed to create email'' \<in> set (sendDigest env key msg to)"
    by (simp add: sendDigest_def Let_def)
  have f: "protoutil_SendEmail env (PrivateKey key)
          (case CreateTextEmail env (digestEmail env key to) of Inl err \<Rightarrow> [] | Inr b \<Rightarrow> b)
          (UbikomName key) (reply_addressee (Sender msg)) = Some err \<longrightarrow>
        Log ErrorLevel ''failed to send response'' \<in> set (sendDigest env key msg to)"
    by (auto simp: sendDigest_def reply_addressee_def Let_def split: sum.splits)
  from a b c d e f show ?thesis by blast
qed

text \<open>
  A send that fails, and a writer that cannot be created, on both reply paths.
\<close>

theorem outbound_failures_not_fatal_witness:
  "CreateTextEmail (scenario_env True [] [] False)
        (articleEmail (scenario_env True [] [] False) ''text'' ''headline'' ''alice'')
     = Inr (''H:'' @ ''text'')
   \<and> protoutil_SendEmail (scenario_env True [] [] False) ''priv'' (''H:'' @ ''text'') ''war-info''
        (reply_addressee ''alice'') = Some (PlainError ''unreachable'')
   \<and> sendArticle (scenario_env True [] [] False) ''text'' ''headline'' ''alice'' ''war-info'' ''alice'' ''priv''
     = (None, [SendEmail ''priv'' (''H:'' @ ''text'') ''war-info'' ''alice'',
               Log ErrorLevel ''failed to send response''])
   \<and> cache_GetArticle ((scenario_env True [] [] True)
          \<lparr>CreateSingleInlineWriter := (\<lambda>h. Inl (PlainError ''no writer''))\<rparr>) (sint (2 :: int64))
     = Inr (''Ceasefire talks'', ''Full article text'')
   \<and> CreateTextEmail ((scenario_env True [] [] True)
          \<lparr>CreateSingleInlineWriter := (\<lambda>h. Inl (PlainError ''no writer''))\<rparr>)
        (articleEmail ((scenario_env True [] [] True)
            \<lparr>CreateSingleInlineWriter := (\<lambda>h. Inl (PlainError ''no writer''))\<rparr>)
          ''Full article text'' ''Ceasefire talks'' ''alice'')
     = Inl (PlainError ''no writer'')
   \<and> requestArticle ((scenario_env True [] [] True)
          \<lparr>CreateSingleInlineWriter := (\<lambda>h. Inl (PlainError ''no writer''))\<rparr>)
        scenario_key (scenario_msg ''alice'') ''alice'' 2
     = [Log DebugLevel ''getting article'', Log ErrorLevel ''error sending the article'']
   \<and> Log ErrorLevel ''failed to create email''
        \<in> set (sendDigest ((scenario_env True [] [] True)
                  \<lparr>CreateSingleInlineWriter := (\<lambda>h. Inl (PlainError ''no writer''))\<rparr>)
                scenario_key (scenario_msg ''alice'') ''alice'')
   \<and> Log ErrorLevel ''failed to send response''
        \<in> set (sendDigest (scenario_env True [] [] False) scenario_key (scenario_msg ''alice'') ''alice'')"
proof -
  let ?nosend = "scenario_env True [] [] False"
  let ?nowriter = "(scenario_env True [] [] True)
          \<lparr>CreateSingleInlineWriter := (\<lambda>h. Inl (PlainError ''no writer''))\<rparr>"
  have c1: "CreateTextEmail ?nosend (articleEmail ?nosend ''text'' ''headline'' ''alice'') = Inr (''H:'' @ ''text'')"
    by (simp add: scenario_CreateTextEmail articleEmail_def)
  have s1: "protoutil_SendEmail ?nosend ''priv'' (''H:'' @ ''text'') ''war-info''
        (reply_addressee ''alice'') = Some (PlainError ''unreachable'')"
    by (simp add: scenario_env_def)
  have g: "cache_GetArticle ?nowriter (sint (2 :: int64)) = Inr (''Ceasefire talks'', ''Full article text'')"
    by (simp add: scenario_env_def)
  have cw: "\<And>email. CreateTextEmail ?nowriter email = Inl (PlainError ''no writer'')"
    by (simp add: CreateTextEmail_def scenario_env_def Let_def split: option.splits)
  have s2: "protoutil_SendEmail ?nosend (PrivateKey scenario_key)
          (case CreateTextEmail ?nosend (digestEmail ?nosend scenario_key ''alice'') of
             Inl err \<Rightarrow> [] | Inr b \<Rightarrow> b)
          (UbikomName scenario_key) (reply_addressee (Sender (scenario_msg ''alice'')))
        = Some (PlainError ''unreachable'')"
    by (simp add: scenario_env_def)
  note t1 = outbound_failures_not_fatal [of ?nosend scenario_key "scenario_msg ''alice''" "''content''"
      "''text''" "''headline''" "''alice''" "''war-info''" "''alice''" "''priv''" "''H:'' @ ''text''"
      "PlainError ''unreachable''" 2]
  note t2 = outbound_failures_not_fatal [of ?nowriter scenario_key "scenario_msg ''alice''" "''content''"
      "''Full article text''" "''Ceasefire talks''" "''alice''" "''war-info''" "''alice''" "''priv''"
      "''H:''" "PlainError ''no writer''" 2]
  have r1: "sendArticle ?nosend ''text'' ''headline'' ''alice'' ''war-info'' ''alice'' ''priv''
     = (None, [SendEmail ''priv'' (''H:'' @ ''text'') ''war-info'' ''alice'',
               Log ErrorLevel ''failed to send response''])"
    using t1 c1 s1 by (simp add: reply_addressee_def)
  have r2: "requestArticle ?nowriter scenario_key (scenario_msg ''alice'') ''alice'' 2
     = [Log DebugLevel ''getting article'', Log ErrorLevel ''error sending the article'']"
    using t2 g cw by blast
  have r3: "Log ErrorLevel ''failed to create email''
        \<in> set (sendDigest ?nowriter scenario_key (scenario_msg ''alice'') ''alice'')"
    using t2 cw by blast
  have r4: "Log ErrorLevel ''failed to send response''
        \<in> set (sendDigest ?nosend scenario_key (scenario_msg ''alice'') ''alice'')"
    using t1 s2 by blast
  from c1 s1 r1 g cw r2 r3 r4 show ?thesis by blast
qed

end
